theory Spec2Isabelle
  imports Main "HOL-Library.AList"
begin

section \<open>Paths\<close>

text \<open>
  The source works on \<^verbatim>\<open>pathlib.Path\<close> objects (POSIX flavour). A path is its root
  (\<^verbatim>\<open>''\<close>, \<^verbatim>\<open>'/'\<close> or \<^verbatim>\<open>'//'\<close>) and its list of components; parsing a string splits it
  at \<^verbatim>\<open>'/'\<close> and drops empty and \<^verbatim>\<open>'.'\<close> components.
\<close>

datatype path = PurePath (root: string) (parts: "string list")

fun split_sep :: "char \<Rightarrow> string \<Rightarrow> string list" where
  "split_sep c [] = [[]]"
| "split_sep c (x # xs) =
     (if x = c then [] # split_sep c xs
      else (case split_sep c xs of
              w # ws \<Rightarrow> (x # w) # ws
            | [] \<Rightarrow> [[x]]))"

definition parse_root :: "string \<Rightarrow> string" where
  "parse_root s =
     (let n = length (takeWhile (\<lambda>c. c = CHR ''/'') s)
      in if n = 0 then [] else if n = 2 then ''//'' else ''/'')"

definition Path :: "string \<Rightarrow> path" where
  "Path s = PurePath (parse_root s)
              (filter (\<lambda>c. c \<noteq> [] \<and> c \<noteq> ''.'') (split_sep (CHR ''/'') s))"

text \<open>\<^verbatim>\<open>PathLike\<close>: a \<^verbatim>\<open>str\<close> or a \<^verbatim>\<open>Path\<close>; \<^verbatim>\<open>Path(p)\<close> of a \<^verbatim>\<open>Path\<close> is that path.\<close>

datatype pathlike = PStr string | PPath path

fun to_Path :: "pathlike \<Rightarrow> path" where
  "to_Path (PStr s) = Path s"
| "to_Path (PPath p) = p"

definition path_name :: "path \<Rightarrow> string" where
  "path_name p = (if parts p = [] then [] else last (parts p))"

text \<open>\<^verbatim>\<open>str.rfind\<close>: the highest index of the character, \<open>-1\<close> when it is absent.\<close>

definition rfind :: "char \<Rightarrow> string \<Rightarrow> int" where
  "rfind c s =
     (if c \<in> set s
      then int (length s) - 1 - int (length (takeWhile (\<lambda>x. x \<noteq> c) (rev s)))
      else - 1)"

text \<open>
  \<^verbatim>\<open>Path.suffix\<close>: the final component from its last dot on, unless that dot is the
  first or the last character of the component.
\<close>

definition path_suffix :: "path \<Rightarrow> string" where
  "path_suffix p =
     (let n = path_name p; i = rfind (CHR ''.'') n
      in if 0 < i \<and> i < int (length n) - 1 then drop (nat i) n else [])"

definition path_parent :: "path \<Rightarrow> path" where
  "path_parent p = (if parts p = [] then p else PurePath (root p) (butlast (parts p)))"

text \<open>\<^verbatim>\<open>p / q\<close>: an absolute right operand replaces the left one.\<close>

definition path_div :: "path \<Rightarrow> path \<Rightarrow> path" where
  "path_div p q = (if root q \<noteq> [] then q else PurePath (root p) (parts p @ parts q))"

section \<open>Dataset.resolve_dataset_path\<close>

text \<open>
  \<^verbatim>\<open>
    dataset_path = Path(dataset_path)
    ext = dataset_path.suffix
    if ext in [".yaml", "yml"]:
        dataset_file = dataset_path
        dataset_dir = dataset_path.parent
    else:
        dataset_file = dataset_path / "dataset.yaml"
        dataset_dir = dataset_path
    return dataset_dir, dataset_file
  \<close>
\<close>

definition resolve_dataset_path :: "pathlike \<Rightarrow> path \<times> path" where
  "resolve_dataset_path dataset_path0 =
     (let dataset_path = to_Path dataset_path0;
          ext = path_suffix dataset_path
      in if ext \<in> set [''.yaml'', ''yml'']
         then (path_parent dataset_path, dataset_path)
         else (dataset_path, path_div dataset_path (Path ''dataset.yaml'')))"

section \<open>Values, errors and the outside world\<close>

text \<open>
  The Python values that reach the registry beside tables: the documents that
  \<^verbatim>\<open>yaml.safe_load\<close> returns and \<^verbatim>\<open>yaml.dump\<close> takes (mappings are keyed by strings
  here), and \<^verbatim>\<open>Path\<close> objects.
\<close>

datatype pyval =
    PyNone
  | PyStr string
  | PyPath path
  | PyList "pyval list"
  | PyDict "(string \<times> pyval) list"

datatype error =
    AssertionError
  | AttributeError string
  | KeyError string
  | TypeError string
  | ValueError string
  | UnsupportedOperation string
  | FormatError string
  | NotFoundError string
  | IOError string

text \<open>The table classes imported by the module.\<close>

datatype kind =
    SegmentSet | RecordingSet | FeatureSet | ClassInfo | EnrollmentMap
  | TrialKey | TrialNdx | SparseTrialKey

text \<open>
  How a collaborator is called: with \<^verbatim>\<open>sep=...\<close> (the value may be \<^verbatim>\<open>None\<close>) or with
  the path alone.
\<close>

datatype sep_arg = NoSep | Sep "string option"

datatype mode = ModeR | ModeW

datatype handle = Handle path mode

text \<open>Every call that leaves the registry is recorded, in order, in a trace.\<close>

datatype 't event =
    Load kind pathlike sep_arg
  | Save 't path sep_arg
  | Open path mode
  | SafeLoad path
  | Dump path pyval
  | IsFile path

text \<open>
  The collaborators are not part of this module: the table classes with their
  \<^verbatim>\<open>load\<close> and \<^verbatim>\<open>save\<close>, the file system and the YAML codec. They are parameters
  of the model, acting on a disk \<open>'d\<close>; \<open>'t\<close> is the type of table objects.
\<close>

record ('t, 'd) collab =
  isinstance :: "'t \<Rightarrow> kind \<Rightarrow> bool"
  table_load :: "kind \<Rightarrow> pathlike \<Rightarrow> sep_arg \<Rightarrow> 'd \<Rightarrow> (error + 't) \<times> 'd"
  table_save :: "'t \<Rightarrow> path \<Rightarrow> sep_arg \<Rightarrow> 'd \<Rightarrow> (error + unit) \<times> 'd"
  file_open :: "path \<Rightarrow> mode \<Rightarrow> 'd \<Rightarrow> (error + unit) \<times> 'd"
  yaml_read :: "path \<Rightarrow> 'd \<Rightarrow> (error + pyval) \<times> 'd"
  yaml_write :: "path \<Rightarrow> pyval \<Rightarrow> 'd \<Rightarrow> (error + unit) \<times> 'd"
  is_file :: "path \<Rightarrow> 'd \<Rightarrow> bool"

section \<open>The registry object\<close>

text \<open>
  The attributes set by \<^verbatim>\<open>__init__\<close>; \<open>u_x\<close> stands for the attribute \<^verbatim>\<open>_x\<close>. A
  dictionary is an association list (Python keeps insertion order), \<^verbatim>\<open>None\<close> is
  \<open>None\<close>.
\<close>

record 't dataset =
  u_segments :: "'t option"
  u_segments_path :: "path option"
  u_classes :: "(string \<times> 't option) list option"
  u_classes_paths :: "(string \<times> pathlike option) list option"
  u_recordings :: "(string \<times> 't option) list option"
  u_recordings_paths :: "(string \<times> pathlike option) list option"
  u_features :: "(string \<times> 't option) list option"
  u_features_paths :: "(string \<times> pathlike option) list option"
  u_enrollments :: "(string \<times> 't option) list option"
  u_enrollments_paths :: "(string \<times> pathlike option) list option"
  u_trials :: "(string \<times> 't option) list option"
  u_trials_paths :: "(string \<times> pathlike option) list option"
  sparse_trials :: bool
  table_sep :: "string option"

text \<open>
  The outside world is the disk and the trace of the calls made so far; a method
  runs on the outside world together with its object \<open>self\<close>.
\<close>

record ('t, 'd) io =
  disk :: 'd
  trace :: "'t event list"

record ('t, 'd) world = "('t, 'd) io" +
  self :: "'t dataset"

section \<open>State and exceptions\<close>

text \<open>
  A statement takes the state and returns an exception or a value, with the state
  it leaves behind: an exception keeps the mutations made before it.
\<close>

type_synonym ('s, 'a) sx = "'s \<Rightarrow> (error + 'a) \<times> 's"

definition ret :: "'a \<Rightarrow> ('s, 'a) sx" where
  "ret a = (\<lambda>s. (Inr a, s))"

definition throw :: "error \<Rightarrow> ('s, 'a) sx" where
  "throw e = (\<lambda>s. (Inl e, s))"

definition seq :: "('s, 'a) sx \<Rightarrow> ('a \<Rightarrow> ('s, 'b) sx) \<Rightarrow> ('s, 'b) sx" where
  "seq m f = (\<lambda>s. case m s of
                     (Inl e, s') \<Rightarrow> (Inl e, s')
                   | (Inr a, s') \<Rightarrow> f a s')"

text \<open>\<^verbatim>\<open>try: m  except: h\<close> (a bare \<^verbatim>\<open>except\<close> catches every exception).\<close>

definition try_except :: "('s, 'a) sx \<Rightarrow> ('s, 'a) sx \<Rightarrow> ('s, 'a) sx" where
  "try_except m h = (\<lambda>s. case m s of
                          (Inl e, s') \<Rightarrow> h s'
                        | (Inr a, s') \<Rightarrow> (Inr a, s'))"

text \<open>A \<^verbatim>\<open>for\<close> loop over a list, with the variables the body carries along.\<close>

primrec for_each :: "'k list \<Rightarrow> ('k \<Rightarrow> 'a \<Rightarrow> ('s, 'a) sx) \<Rightarrow> 'a \<Rightarrow> ('s, 'a) sx" where
  "for_each [] body acc = ret acc"
| "for_each (k # ks) body acc = seq (body k acc) (for_each ks body)"

definition lift :: "error + 'a \<Rightarrow> ('s, 'a) sx" where
  "lift r = (\<lambda>s. (r, s))"

definition self_get :: "('t dataset \<Rightarrow> error + 'a) \<Rightarrow> (('t, 'd) world, 'a) sx" where
  "self_get f = (\<lambda>w. (f (self w), w))"

definition self_set :: "('t dataset \<Rightarrow> error + 't dataset) \<Rightarrow> (('t, 'd) world, unit) sx" where
  "self_set f = (\<lambda>w. case f (self w) of
                        Inl e \<Rightarrow> (Inl e, w)
                      | Inr s \<Rightarrow> (Inr (), w\<lparr>self := s\<rparr>))"

text \<open>\<^verbatim>\<open>d[k]\<close> and \<^verbatim>\<open>d[k] = v\<close> on an attribute that holds a dictionary or \<^verbatim>\<open>None\<close>.\<close>

definition getitem :: "(string \<times> 'v) list option \<Rightarrow> string \<Rightarrow> error + 'v" where
  "getitem d k =
     (case d of
        None \<Rightarrow> Inl (TypeError ''NoneType object is not subscriptable'')
      | Some m \<Rightarrow> (case map_of m k of
                     None \<Rightarrow> Inl (KeyError k)
                   | Some v \<Rightarrow> Inr v))"

definition setitem ::
  "(string \<times> 'v) list option \<Rightarrow> string \<Rightarrow> 'v \<Rightarrow> error + (string \<times> 'v) list option" where
  "setitem d k v =
     (case d of
        None \<Rightarrow> Inl (TypeError ''NoneType object does not support item assignment'')
      | Some m \<Rightarrow> Inr (Some (AList.update k v m)))"

subsection \<open>Calls to the collaborators\<close>

definition io_load ::
  "('t, 'd) collab \<Rightarrow> kind \<Rightarrow> pathlike \<Rightarrow> sep_arg \<Rightarrow> (('t, 'd, 'z) io_scheme, 't) sx" where
  "io_load C k p sa =
     (\<lambda>w. case table_load C k p sa (disk w) of
             (r, d) \<Rightarrow> (r, w\<lparr>disk := d, trace := trace w @ [Load k p sa]\<rparr>))"

text \<open>\<^verbatim>\<open>v.save(path, ...)\<close>; \<^verbatim>\<open>None\<close> has no method \<^verbatim>\<open>save\<close>.\<close>

definition io_save ::
  "('t, 'd) collab \<Rightarrow> 't option \<Rightarrow> path \<Rightarrow> sep_arg \<Rightarrow> (('t, 'd, 'z) io_scheme, unit) sx" where
  "io_save C v p sa =
     (case v of
        None \<Rightarrow> throw (AttributeError ''save'')
      | Some t \<Rightarrow>
          (\<lambda>w. case table_save C t p sa (disk w) of
                  (r, d) \<Rightarrow> (r, w\<lparr>disk := d, trace := trace w @ [Save t p sa]\<rparr>)))"

definition io_open ::
  "('t, 'd) collab \<Rightarrow> path \<Rightarrow> mode \<Rightarrow> (('t, 'd, 'z) io_scheme, handle) sx" where
  "io_open C p m =
     (\<lambda>w. case file_open C p m (disk w) of
             (r, d) \<Rightarrow> (map_sum id (\<lambda>_. Handle p m) r,
                        w\<lparr>disk := d, trace := trace w @ [Open p m]\<rparr>))"

text \<open>
  \<^verbatim>\<open>yaml.safe_load(f)\<close> reads the stream, \<^verbatim>\<open>yaml.dump(doc, f)\<close> writes to it; a
  stream opened with \<^verbatim>\<open>"w"\<close> is not readable and one opened with \<^verbatim>\<open>"r"\<close> is not
  writable (\<^verbatim>\<open>io.UnsupportedOperation\<close>).
\<close>

definition yaml_safe_load ::
  "('t, 'd) collab \<Rightarrow> handle \<Rightarrow> (('t, 'd, 'z) io_scheme, pyval) sx" where
  "yaml_safe_load C f =
     (case f of
        Handle p ModeW \<Rightarrow> throw (UnsupportedOperation ''not readable'')
      | Handle p ModeR \<Rightarrow>
          (\<lambda>w. case yaml_read C p (disk w) of
                  (r, d) \<Rightarrow> (r, w\<lparr>disk := d, trace := trace w @ [SafeLoad p]\<rparr>)))"

definition yaml_dump ::
  "('t, 'd) collab \<Rightarrow> pyval \<Rightarrow> handle \<Rightarrow> (('t, 'd, 'z) io_scheme, unit) sx" where
  "yaml_dump C doc f =
     (case f of
        Handle p ModeR \<Rightarrow> throw (UnsupportedOperation ''not writable'')
      | Handle p ModeW \<Rightarrow>
          (\<lambda>w. case yaml_write C p doc (disk w) of
                  (r, d) \<Rightarrow> (r, w\<lparr>disk := d, trace := trace w @ [Dump p doc]\<rparr>)))"

definition io_is_file :: "('t, 'd) collab \<Rightarrow> path \<Rightarrow> (('t, 'd, 'z) io_scheme, bool) sx" where
  "io_is_file C p =
     (\<lambda>w. (Inr (is_file C p (disk w)), w\<lparr>trace := trace w @ [IsFile p]\<rparr>))"

section \<open>Construction\<close>

text \<open>
  An argument of the constructor: a table object, a \<^verbatim>\<open>str\<close>, a \<^verbatim>\<open>Path\<close>, or anything
  else.
\<close>

datatype 't arg = ArgTable 't | ArgStr string | ArgPath path | ArgOther

text \<open>
  \<^verbatim>\<open>
    def _parse_dict_args(self, data, types):
        if data is None:
            return None, None
        assert isinstance(data, dict)
        objects = {k: (v if isinstance(v, types) else None) for k, v in data.items()}
        paths = {
            k: (v if isinstance(v, (str, Path)) else None) for k, v in data.items()
        }
        return objects, paths
  \<close>
  \<open>data\<close> is a dictionary or \<^verbatim>\<open>None\<close> by its type here, so the assertion holds.
\<close>

definition is_table_of :: "('t, 'd) collab \<Rightarrow> kind list \<Rightarrow> 't arg \<Rightarrow> 't option" where
  "is_table_of C types v =
     (case v of
        ArgTable t \<Rightarrow> (if list_ex (isinstance C t) types then Some t else None)
      | _ \<Rightarrow> None)"

definition is_str_or_Path :: "'t arg \<Rightarrow> pathlike option" where
  "is_str_or_Path v =
     (case v of
        ArgStr s \<Rightarrow> Some (PStr s)
      | ArgPath p \<Rightarrow> Some (PPath p)
      | _ \<Rightarrow> None)"

definition parse_dict_args ::
  "('t, 'd) collab \<Rightarrow> (string \<times> 't arg) list option \<Rightarrow> kind list \<Rightarrow>
   (string \<times> 't option) list option \<times> (string \<times> pathlike option) list option" where
  "parse_dict_args C data types =
     (case data of
        None \<Rightarrow> (None, None)
      | Some items \<Rightarrow>
          (let objects = map (\<lambda>(k, v). (k, is_table_of C types v)) items;
               paths = map (\<lambda>(k, v). (k, is_str_or_Path v)) items
           in (Some objects, Some paths)))"

text \<open>
  \<^verbatim>\<open>
    if isinstance(segments, SegmentSet):
        self._segments = segments
        self._segments_path = None
    else:
        assert isinstance(segments, (str, Path))
        self._segments = None
        self._segments_path = Path(segments)
    self._classes, self._classes_paths = self._parse_dict_args(classes, ClassInfo)
    ...
    self.sparse_trials = sparse_trials
    self.table_sep = table_sep
  \<close>
\<close>

definition init ::
  "('t, 'd) collab \<Rightarrow> 't arg \<Rightarrow> (string \<times> 't arg) list option \<Rightarrow>
   (string \<times> 't arg) list option \<Rightarrow> (string \<times> 't arg) list option \<Rightarrow>
   (string \<times> 't arg) list option \<Rightarrow> (string \<times> 't arg) list option \<Rightarrow>
   bool \<Rightarrow> string option \<Rightarrow> error + 't dataset" where
  "init C segments0 classes0 recordings0 features0 enrollments0 trials0 sparse_trials0 table_sep0 =
     (case (case is_table_of C [SegmentSet] segments0 of
              Some t \<Rightarrow> Inr (Some t, None)
            | None \<Rightarrow>
                (case is_str_or_Path segments0 of
                   None \<Rightarrow> Inl AssertionError
                 | Some p \<Rightarrow> Inr (None, Some (to_Path p)))) of
        Inl e \<Rightarrow> Inl e
      | Inr (seg, seg_path) \<Rightarrow>
          (let (cl, cl_paths) = parse_dict_args C classes0 [ClassInfo];
               (re, re_paths) = parse_dict_args C recordings0 [RecordingSet];
               (fe, fe_paths) = parse_dict_args C features0 [FeatureSet];
               (en, en_paths) = parse_dict_args C enrollments0 [EnrollmentMap];
               (tr, tr_paths) = parse_dict_args C trials0 [TrialKey, TrialNdx, SparseTrialKey]
           in Inr \<lparr>u_segments = seg, u_segments_path = seg_path,
                    u_classes = cl, u_classes_paths = cl_paths,
                    u_recordings = re, u_recordings_paths = re_paths,
                    u_features = fe, u_features_paths = fe_paths,
                    u_enrollments = en, u_enrollments_paths = en_paths,
                    u_trials = tr, u_trials_paths = tr_paths,
                    sparse_trials = sparse_trials0, table_sep = table_sep0\<rparr>))"

section \<open>Accessors\<close>

text \<open>
  Reading an attribute by name. The class defines the attributes set by
  \<^verbatim>\<open>__init__\<close> and its methods; any other name raises \<^verbatim>\<open>AttributeError\<close>.
\<close>

datatype 't attr =
    AttrTable "'t option"
  | AttrPath "path option"
  | AttrTables "(string \<times> 't option) list option"
  | AttrPaths "(string \<times> pathlike option) list option"
  | AttrBool bool
  | AttrSep "string option"
  | AttrMethod

definition method_names :: "string list" where
  "method_names =
     [''__init__'', ''_parse_dict_args'', ''segments'', ''recordings_value'',
      ''features_value'', ''classes_value'', ''enrollments_value'', ''trials_value'',
      ''recordings'', ''features'', ''classes'', ''enrollments'', ''trials'',
      ''resolve_dataset_path'', ''resolve_file_path'', ''save'', ''update_from_disk'',
      ''load'']"

definition getattr :: "string \<Rightarrow> 't dataset \<Rightarrow> error + 't attr" where
  "getattr n s =
     (if n = ''_segments'' then Inr (AttrTable (u_segments s))
      else if n = ''_segments_path'' then Inr (AttrPath (u_segments_path s))
      else if n = ''_classes'' then Inr (AttrTables (u_classes s))
      else if n = ''_classes_paths'' then Inr (AttrPaths (u_classes_paths s))
      else if n = ''_recordings'' then Inr (AttrTables (u_recordings s))
      else if n = ''_recordings_paths'' then Inr (AttrPaths (u_recordings_paths s))
      else if n = ''_features'' then Inr (AttrTables (u_features s))
      else if n = ''_features_paths'' then Inr (AttrPaths (u_features_paths s))
      else if n = ''_enrollments'' then Inr (AttrTables (u_enrollments s))
      else if n = ''_enrollments_paths'' then Inr (AttrPaths (u_enrollments_paths s))
      else if n = ''_trials'' then Inr (AttrTables (u_trials s))
      else if n = ''_trials_paths'' then Inr (AttrPaths (u_trials_paths s))
      else if n = ''sparse_trials'' then Inr (AttrBool (sparse_trials s))
      else if n = ''table_sep'' then Inr (AttrSep (table_sep s))
      else if n \<in> set method_names then Inr AttrMethod
      else Inl (AttributeError n))"

text \<open>A value handed to a \<^verbatim>\<open>load\<close> as its path: the collaborators take a \<^verbatim>\<open>PathLike\<close>.\<close>

definition as_pathlike :: "'t attr \<Rightarrow> error + pathlike" where
  "as_pathlike a =
     (case a of
        AttrPath (Some p) \<Rightarrow> Inr (PPath p)
      | _ \<Rightarrow> Inl (TypeError ''expected str or os.PathLike''))"

text \<open>
  \<^verbatim>\<open>
    def segments(self, keep_loaded: bool = True):
        if self._segments is None:
            assert self._segments_path is not None
            segments = SegmentSet.load(self.segments_path, sep=self.table_sep)
            if keep_loaded:
                self._segments = segments
            return segments
        return self._segments
  \<close>
\<close>

definition segments :: "('t, 'd) collab \<Rightarrow> bool \<Rightarrow> (('t, 'd) world, 't) sx" where
  "segments C keep_loaded =
     seq (self_get (\<lambda>s. Inr (u_segments s))) (\<lambda>cur.
       case cur of
         None \<Rightarrow>
           seq (self_get (\<lambda>s. if u_segments_path s = None then Inl AssertionError else Inr ()))
             (\<lambda>_.
           seq (self_get (getattr ''segments_path'')) (\<lambda>a.
           seq (lift (as_pathlike a)) (\<lambda>p.
           seq (self_get (\<lambda>s. Inr (table_sep s))) (\<lambda>sep.
           seq (io_load C SegmentSet p (Sep sep)) (\<lambda>segments.
           seq (if keep_loaded
                then self_set (\<lambda>s. Inr (s\<lparr>u_segments := Some segments\<rparr>))
                else ret ()) (\<lambda>_.
           ret segments))))))
       | Some t \<Rightarrow> ret t)"

text \<open>
  \<^verbatim>\<open>
    def recordings_value(self, key: str, keep_loaded: bool = True):
        if self._recordings[key] is None:
            assert self._recordings_paths[key] is not None
            recordings = RecordingSet.load(
                self._recordings_paths[key], sep=self.table_sep
            )
            if keep_loaded:
                self._recordings[key] = recordings
        return self._recordings[key]
  \<close>
  The other four accessors have the same shape.
\<close>

definition recordings_value ::
  "('t, 'd) collab \<Rightarrow> string \<Rightarrow> bool \<Rightarrow> (('t, 'd) world, 't option) sx" where
  "recordings_value C key keep_loaded =
     seq (self_get (\<lambda>s. getitem (u_recordings s) key)) (\<lambda>cur.
     seq (if cur = None
          then
            seq (self_get (\<lambda>s. getitem (u_recordings_paths s) key)) (\<lambda>path.
              case path of
                None \<Rightarrow> throw AssertionError
              | Some p \<Rightarrow>
                  seq (self_get (\<lambda>s. Inr (table_sep s))) (\<lambda>sep.
                  seq (io_load C RecordingSet p (Sep sep)) (\<lambda>recordings.
                  if keep_loaded
                  then self_set (\<lambda>s. map_sum id (\<lambda>d. s\<lparr>u_recordings := d\<rparr>)
                                        (setitem (u_recordings s) key (Some recordings)))
                  else ret ())))
          else ret ()) (\<lambda>_.
     self_get (\<lambda>s. getitem (u_recordings s) key)))"

definition features_value ::
  "('t, 'd) collab \<Rightarrow> string \<Rightarrow> bool \<Rightarrow> (('t, 'd) world, 't option) sx" where
  "features_value C key keep_loaded =
     seq (self_get (\<lambda>s. getitem (u_features s) key)) (\<lambda>cur.
     seq (if cur = None
          then
            seq (self_get (\<lambda>s. getitem (u_features_paths s) key)) (\<lambda>path.
              case path of
                None \<Rightarrow> throw AssertionError
              | Some p \<Rightarrow>
                  seq (self_get (\<lambda>s. Inr (table_sep s))) (\<lambda>sep.
                  seq (io_load C FeatureSet p (Sep sep)) (\<lambda>features.
                  if keep_loaded
                  then self_set (\<lambda>s. map_sum id (\<lambda>d. s\<lparr>u_features := d\<rparr>)
                                        (setitem (u_features s) key (Some features)))
                  else ret ())))
          else ret ()) (\<lambda>_.
     self_get (\<lambda>s. getitem (u_features s) key)))"

definition classes_value ::
  "('t, 'd) collab \<Rightarrow> string \<Rightarrow> bool \<Rightarrow> (('t, 'd) world, 't option) sx" where
  "classes_value C key keep_loaded =
     seq (self_get (\<lambda>s. getitem (u_classes s) key)) (\<lambda>cur.
     seq (if cur = None
          then
            seq (self_get (\<lambda>s. getitem (u_classes_paths s) key)) (\<lambda>path.
              case path of
                None \<Rightarrow> throw AssertionError
              | Some p \<Rightarrow>
                  seq (self_get (\<lambda>s. Inr (table_sep s))) (\<lambda>sep.
                  seq (io_load C ClassInfo p (Sep sep)) (\<lambda>classes.
                  if keep_loaded
                  then self_set (\<lambda>s. map_sum id (\<lambda>d. s\<lparr>u_classes := d\<rparr>)
                                        (setitem (u_classes s) key (Some classes)))
                  else ret ())))
          else ret ()) (\<lambda>_.
     self_get (\<lambda>s. getitem (u_classes s) key)))"

definition enrollments_value ::
  "('t, 'd) collab \<Rightarrow> string \<Rightarrow> bool \<Rightarrow> (('t, 'd) world, 't option) sx" where
  "enrollments_value C key keep_loaded =
     seq (self_get (\<lambda>s. getitem (u_enrollments s) key)) (\<lambda>cur.
     seq (if cur = None
          then
            seq (self_get (\<lambda>s. getitem (u_enrollments_paths s) key)) (\<lambda>path.
              case path of
                None \<Rightarrow> throw AssertionError
              | Some p \<Rightarrow>
                  seq (self_get (\<lambda>s. Inr (table_sep s))) (\<lambda>sep.
                  seq (io_load C EnrollmentMap p (Sep sep)) (\<lambda>enrollments.
                  if keep_loaded
                  then self_set (\<lambda>s. map_sum id (\<lambda>d. s\<lparr>u_enrollments := d\<rparr>)
                                        (setitem (u_enrollments s) key (Some enrollments)))
                  else ret ())))
          else ret ()) (\<lambda>_.
     self_get (\<lambda>s. getitem (u_enrollments s) key)))"

text \<open>
  \<^verbatim>\<open>
    def trials_value(self, key: str, keep_loaded: bool = True):
        if self._trials[key] is None:
            assert self._trials_paths[key] is not None
            try:
                if self.sparse_trials:
                    trials = SparseTrialKey.load(self._trials_paths[key])
                else:
                    trials = TrialKey.load(self._trials_paths[key])
            except:
                trials = TrialNdx.load(self._trials_paths[key])
            if keep_loaded:
                self._trials[key] = trials
        return self._trials[key]
  \<close>
\<close>

definition trials_value ::
  "('t, 'd) collab \<Rightarrow> string \<Rightarrow> bool \<Rightarrow> (('t, 'd) world, 't option) sx" where
  "trials_value C key keep_loaded =
     seq (self_get (\<lambda>s. getitem (u_trials s) key)) (\<lambda>cur.
     seq (if cur = None
          then
            seq (self_get (\<lambda>s. getitem (u_trials_paths s) key)) (\<lambda>path.
              case path of
                None \<Rightarrow> throw AssertionError
              | Some p \<Rightarrow>
                  seq (try_except
                         (seq (self_get (\<lambda>s. Inr (sparse_trials s))) (\<lambda>sparse.
                            if sparse
                            then io_load C SparseTrialKey p NoSep
                            else io_load C TrialKey p NoSep))
                         (io_load C TrialNdx p NoSep)) (\<lambda>trials.
                  if keep_loaded
                  then self_set (\<lambda>s. map_sum id (\<lambda>d. s\<lparr>u_trials := d\<rparr>)
                                        (setitem (u_trials s) key (Some trials)))
                  else ret ()))
          else ret ()) (\<lambda>_.
     self_get (\<lambda>s. getitem (u_trials s) key)))"

section \<open>Iterators\<close>

text \<open>
  \<^verbatim>\<open>
    def recordings(self, keep_loaded: bool = True):
        if self._recordings is None:
            yield from ()
        else:
            for key in self._recordings.keys():
                yield key, self.recordings_value(key, keep_loaded)
  \<close>
  A generator runs interleaved with the loop that consumes it: for every key, the
  accessor is called and then the consumer's loop body \<open>body\<close> runs on the pair, with
  the variables \<open>acc\<close> it carries. The accessor never adds or removes a key, so the keys
  are those at the start.
\<close>

definition recordings ::
  "('t, 'd) collab \<Rightarrow> bool \<Rightarrow> (string \<Rightarrow> 't option \<Rightarrow> 'a \<Rightarrow> (('t, 'd) world, 'a) sx) \<Rightarrow>
   'a \<Rightarrow> (('t, 'd) world, 'a) sx" where
  "recordings C keep_loaded body acc =
     seq (self_get (\<lambda>s. Inr (u_recordings s))) (\<lambda>d.
       case d of
         None \<Rightarrow> ret acc
       | Some m \<Rightarrow>
           for_each (map fst m)
             (\<lambda>key a. seq (recordings_value C key keep_loaded) (\<lambda>v. body key v a)) acc)"

definition features ::
  "('t, 'd) collab \<Rightarrow> bool \<Rightarrow> (string \<Rightarrow> 't option \<Rightarrow> 'a \<Rightarrow> (('t, 'd) world, 'a) sx) \<Rightarrow>
   'a \<Rightarrow> (('t, 'd) world, 'a) sx" where
  "features C keep_loaded body acc =
     seq (self_get (\<lambda>s. Inr (u_features s))) (\<lambda>d.
       case d of
         None \<Rightarrow> ret acc
       | Some m \<Rightarrow>
           for_each (map fst m)
             (\<lambda>key a. seq (features_value C key keep_loaded) (\<lambda>v. body key v a)) acc)"

definition classes ::
  "('t, 'd) collab \<Rightarrow> bool \<Rightarrow> (string \<Rightarrow> 't option \<Rightarrow> 'a \<Rightarrow> (('t, 'd) world, 'a) sx) \<Rightarrow>
   'a \<Rightarrow> (('t, 'd) world, 'a) sx" where
  "classes C keep_loaded body acc =
     seq (self_get (\<lambda>s. Inr (u_classes s))) (\<lambda>d.
       case d of
         None \<Rightarrow> ret acc
       | Some m \<Rightarrow>
           for_each (map fst m)
             (\<lambda>key a. seq (classes_value C key keep_loaded) (\<lambda>v. body key v a)) acc)"

definition enrollments ::
  "('t, 'd) collab \<Rightarrow> bool \<Rightarrow> (string \<Rightarrow> 't option \<Rightarrow> 'a \<Rightarrow> (('t, 'd) world, 'a) sx) \<Rightarrow>
   'a \<Rightarrow> (('t, 'd) world, 'a) sx" where
  "enrollments C keep_loaded body acc =
     seq (self_get (\<lambda>s. Inr (u_enrollments s))) (\<lambda>d.
       case d of
         None \<Rightarrow> ret acc
       | Some m \<Rightarrow>
           for_each (map fst m)
             (\<lambda>key a. seq (enrollments_value C key keep_loaded) (\<lambda>v. body key v a)) acc)"

definition trials ::
  "('t, 'd) collab \<Rightarrow> bool \<Rightarrow> (string \<Rightarrow> 't option \<Rightarrow> 'a \<Rightarrow> (('t, 'd) world, 'a) sx) \<Rightarrow>
   'a \<Rightarrow> (('t, 'd) world, 'a) sx" where
  "trials C keep_loaded body acc =
     seq (self_get (\<lambda>s. Inr (u_trials s))) (\<lambda>d.
       case d of
         None \<Rightarrow> ret acc
       | Some m \<Rightarrow>
           for_each (map fst m)
             (\<lambda>key a. seq (trials_value C key keep_loaded) (\<lambda>v. body key v a)) acc)"

section \<open>Dataset.resolve_file_path\<close>

text \<open>
  \<^verbatim>\<open>
    def resolve_file_path(dataset_dir, file_path):
        if file_path.is_file():
            return file_path
        return dataset_dir / file_path
  \<close>
  Only a \<^verbatim>\<open>Path\<close> has the method \<^verbatim>\<open>is_file\<close>.
\<close>

definition resolve_file_path ::
  "('t, 'd) collab \<Rightarrow> path \<Rightarrow> pyval \<Rightarrow> (('t, 'd, 'z) io_scheme, path) sx" where
  "resolve_file_path C dataset_dir file_path =
     (case file_path of
        PyPath p \<Rightarrow>
          seq (io_is_file C p) (\<lambda>b.
            if b then ret p else ret (path_div dataset_dir p))
      | _ \<Rightarrow> throw (AttributeError ''is_file''))"

section \<open>Dataset.save\<close>

text \<open>
  One loop of \<^verbatim>\<open>save\<close>, for the recordings (the other four have the same shape; the
  trials are saved without \<^verbatim>\<open>sep\<close>):
  \<^verbatim>\<open>
    file_names = {}
    for k, v in self.recordings():
        file_name = k + table_ext
        file_names[k] = file_name
        file_path = dataset_dir / file_name
        v.save(file_path, sep=table_sep)
        if update_paths:
            self._recordings_paths[k] = file_path
  \<close>
  Its value is \<open>file_names\<close>.
\<close>

definition save_recordings ::
  "('t, 'd) collab \<Rightarrow> path \<Rightarrow> string \<Rightarrow> string option \<Rightarrow> bool \<Rightarrow>
   (('t, 'd) world, (string \<times> pyval) list) sx" where
  "save_recordings C dataset_dir table_ext table_sep1 update_paths =
     recordings C True
       (\<lambda>k v file_names.
          let file_name = k @ table_ext;
              file_names1 = AList.update k (PyStr file_name) file_names;
              file_path = path_div dataset_dir (Path file_name)
          in seq (io_save C v file_path (Sep table_sep1)) (\<lambda>_.
             seq (if update_paths
                  then self_set (\<lambda>s. map_sum id (\<lambda>d. s\<lparr>u_recordings_paths := d\<rparr>)
                                        (setitem (u_recordings_paths s) k (Some (PPath file_path))))
                  else ret ()) (\<lambda>_.
             ret file_names1)))
       []"

definition save_features ::
  "('t, 'd) collab \<Rightarrow> path \<Rightarrow> string \<Rightarrow> string option \<Rightarrow> bool \<Rightarrow>
   (('t, 'd) world, (string \<times> pyval) list) sx" where
  "save_features C dataset_dir table_ext table_sep1 update_paths =
     features C True
       (\<lambda>k v file_names.
          let file_name = k @ table_ext;
              file_names1 = AList.update k (PyStr file_name) file_names;
              file_path = path_div dataset_dir (Path file_name)
          in seq (io_save C v file_path (Sep table_sep1)) (\<lambda>_.
             seq (if update_paths
                  then self_set (\<lambda>s. map_sum id (\<lambda>d. s\<lparr>u_features_paths := d\<rparr>)
                                        (setitem (u_features_paths s) k (Some (PPath file_path))))
                  else ret ()) (\<lambda>_.
             ret file_names1)))
       []"

definition save_classes ::
  "('t, 'd) collab \<Rightarrow> path \<Rightarrow> string \<Rightarrow> string option \<Rightarrow> bool \<Rightarrow>
   (('t, 'd) world, (string \<times> pyval) list) sx" where
  "save_classes C dataset_dir table_ext table_sep1 update_paths =
     classes C True
       (\<lambda>k v file_names.
          let file_name = k @ table_ext;
              file_names1 = AList.update k (PyStr file_name) file_names;
              file_path = path_div dataset_dir (Path file_name)
          in seq (io_save C v file_path (Sep table_sep1)) (\<lambda>_.
             seq (if update_paths
                  then self_set (\<lambda>s. map_sum id (\<lambda>d. s\<lparr>u_classes_paths := d\<rparr>)
                                        (setitem (u_classes_paths s) k (Some (PPath file_path))))
                  else ret ()) (\<lambda>_.
             ret file_names1)))
       []"

definition save_enrollments ::
  "('t, 'd) collab \<Rightarrow> path \<Rightarrow> string \<Rightarrow> string option \<Rightarrow> bool \<Rightarrow>
   (('t, 'd) world, (string \<times> pyval) list) sx" where
  "save_enrollments C dataset_dir table_ext table_sep1 update_paths =
     enrollments C True
       (\<lambda>k v file_names.
          let file_name = k @ table_ext;
              file_names1 = AList.update k (PyStr file_name) file_names;
              file_path = path_div dataset_dir (Path file_name)
          in seq (io_save C v file_path (Sep table_sep1)) (\<lambda>_.
             seq (if update_paths
                  then self_set (\<lambda>s. map_sum id (\<lambda>d. s\<lparr>u_enrollments_paths := d\<rparr>)
                                        (setitem (u_enrollments_paths s) k (Some (PPath file_path))))
                  else ret ()) (\<lambda>_.
             ret file_names1)))
       []"

definition save_trials ::
  "('t, 'd) collab \<Rightarrow> path \<Rightarrow> string \<Rightarrow> bool \<Rightarrow>
   (('t, 'd) world, (string \<times> pyval) list) sx" where
  "save_trials C dataset_dir table_ext update_paths =
     trials C True
       (\<lambda>k v file_names.
          let file_name = k @ table_ext;
              file_names1 = AList.update k (PyStr file_name) file_names;
              file_path = path_div dataset_dir (Path file_name)
          in seq (io_save C v file_path NoSep) (\<lambda>_.
             seq (if update_paths
                  then self_set (\<lambda>s. map_sum id (\<lambda>d. s\<lparr>u_trials_paths := d\<rparr>)
                                        (setitem (u_trials_paths s) k (Some (PPath file_path))))
                  else ret ()) (\<lambda>_.
             ret file_names1)))
       []"

text \<open>\<^verbatim>\<open>if file_names: dataset[group] = file_names\<close>\<close>

definition add_group ::
  "string \<Rightarrow> (string \<times> pyval) list \<Rightarrow> (string \<times> pyval) list \<Rightarrow> (string \<times> pyval) list" where
  "add_group grp file_names dataset =
     (if file_names \<noteq> [] then AList.update grp (PyDict file_names) dataset else dataset)"

text \<open>
  \<^verbatim>\<open>
    table_sep = self.table_sep if table_sep is None else table_sep
    if update_paths:
        self.table_sep = table_sep
    table_ext = ".tsv" if table_sep == "\t" else ".csv"
    dataset_dir, dataset_file = Dataset.resolve_dataset_path(dataset_path)
    dataset = {}
    file_name = f"segments{table_ext}"
    dataset["segments"] = file_name
    file_path = dataset_dir / file_name
    self.segments().save(file_path, sep=table_sep)
    if update_paths:
        self._segments_path = file_path
    (the five loops, each followed by "if file_names: dataset[group] = file_names")
    with open(dataset_file, "w") as f:
        yaml.dump(dataset, f)
  \<close>
  \<open>save\<close> is the first three lines, which settle the separator of the call, followed
  by \<open>save_tables\<close>, the rest of the body, with that separator.
\<close>

definition save_tables ::
  "('t, 'd) collab \<Rightarrow> pathlike \<Rightarrow> bool \<Rightarrow> string option \<Rightarrow> (('t, 'd) world, unit) sx" where
  "save_tables C dataset_path update_paths table_sep1 =
     (let table_ext = (if table_sep1 = Some [CHR 0x09] then ''.tsv'' else ''.csv'');
          (dataset_dir, dataset_file) = resolve_dataset_path dataset_path;
          file_name = ''segments'' @ table_ext;
          dataset1 = AList.update ''segments'' (PyStr file_name) [];
          file_path = path_div dataset_dir (Path file_name)
      in
      seq (segments C True) (\<lambda>seg.
      seq (io_save C (Some seg) file_path (Sep table_sep1)) (\<lambda>_.
      seq (if update_paths
           then self_set (\<lambda>s. Inr (s\<lparr>u_segments_path := Some file_path\<rparr>))
           else ret ()) (\<lambda>_.
      seq (save_recordings C dataset_dir table_ext table_sep1 update_paths) (\<lambda>file_names.
      let dataset2 = add_group ''recordings'' file_names dataset1 in
      seq (save_features C dataset_dir table_ext table_sep1 update_paths) (\<lambda>file_names.
      let dataset3 = add_group ''features'' file_names dataset2 in
      seq (save_classes C dataset_dir table_ext table_sep1 update_paths) (\<lambda>file_names.
      let dataset4 = add_group ''classes'' file_names dataset3 in
      seq (save_enrollments C dataset_dir table_ext table_sep1 update_paths) (\<lambda>file_names.
      let dataset5 = add_group ''enrollments'' file_names dataset4 in
      seq (save_trials C dataset_dir table_ext update_paths) (\<lambda>file_names.
      let dataset6 = add_group ''trials'' file_names dataset5 in
      seq (io_open C dataset_file ModeW) (\<lambda>f.
      yaml_dump C (PyDict dataset6) f))))))))))"

definition save ::
  "('t, 'd) collab \<Rightarrow> pathlike \<Rightarrow> bool \<Rightarrow> string option \<Rightarrow> (('t, 'd) world, unit) sx" where
  "save C dataset_path update_paths table_sep0 =
     seq (self_get (\<lambda>s. Inr (if table_sep0 = None then table_sep s else table_sep0)))
       (\<lambda>table_sep1.
     seq (if update_paths
          then self_set (\<lambda>s. Inr (s\<lparr>table_sep := table_sep1\<rparr>))
          else ret ()) (\<lambda>_.
     save_tables C dataset_path update_paths table_sep1))"

section \<open>Dataset.update_from_disk and Dataset.load\<close>

text \<open>
  \<^verbatim>\<open>
    def update_from_disk(self):
        self.segments()
        for k, v in self.recordings():
            pass
        (the same for features, classes, enrollments, trials)
  \<close>
\<close>

definition update_from_disk :: "('t, 'd) collab \<Rightarrow> (('t, 'd) world, unit) sx" where
  "update_from_disk C =
     seq (segments C True) (\<lambda>_.
     seq (recordings C True (\<lambda>k v a. ret a) ()) (\<lambda>_.
     seq (features C True (\<lambda>k v a. ret a) ()) (\<lambda>_.
     seq (classes C True (\<lambda>k v a. ret a) ()) (\<lambda>_.
     seq (enrollments C True (\<lambda>k v a. ret a) ()) (\<lambda>_.
     trials C True (\<lambda>k v a. ret a) ())))))"

text \<open>Python's operations on the parsed manifest.\<close>

fun is_substr :: "string \<Rightarrow> string \<Rightarrow> bool" where
  "is_substr x [] = (x = [])"
| "is_substr x (c # cs) = (take (length x) (c # cs) = x \<or> is_substr x cs)"

text \<open>\<^verbatim>\<open>x in v\<close> for a string \<open>x\<close>.\<close>

definition py_contains :: "string \<Rightarrow> pyval \<Rightarrow> error + bool" where
  "py_contains x v =
     (case v of
        PyDict m \<Rightarrow> Inr (x \<in> set (map fst m))
      | PyList l \<Rightarrow> Inr (PyStr x \<in> set l)
      | PyStr s \<Rightarrow> Inr (is_substr x s)
      | _ \<Rightarrow> Inl (TypeError ''argument is not iterable''))"

text \<open>\<^verbatim>\<open>v[x]\<close> for a string \<open>x\<close>.\<close>

definition py_getitem :: "pyval \<Rightarrow> string \<Rightarrow> error + pyval" where
  "py_getitem v x =
     (case v of
        PyDict m \<Rightarrow> (case map_of m x of None \<Rightarrow> Inl (KeyError x) | Some y \<Rightarrow> Inr y)
      | _ \<Rightarrow> Inl (TypeError ''indices must be integers''))"

text \<open>Iterating a value: a dictionary yields its keys, a string its characters.\<close>

definition py_iter :: "pyval \<Rightarrow> error + pyval list" where
  "py_iter v =
     (case v of
        PyDict m \<Rightarrow> Inr (map (\<lambda>kv. PyStr (fst kv)) m)
      | PyList l \<Rightarrow> Inr l
      | PyStr s \<Rightarrow> Inr (map (\<lambda>c. PyStr [c]) s)
      | _ \<Rightarrow> Inl (TypeError ''object is not iterable''))"

text \<open>\<^verbatim>\<open>k, v = item\<close>\<close>

definition py_unpack2 :: "pyval \<Rightarrow> error + pyval \<times> pyval" where
  "py_unpack2 item =
     (case py_iter item of
        Inl e \<Rightarrow> Inl e
      | Inr [k, v] \<Rightarrow> Inr (k, v)
      | Inr _ \<Rightarrow> Inl (ValueError ''wrong number of values to unpack''))"

text \<open>A key of a group dictionary is a string in this model.\<close>

definition py_key :: "pyval \<Rightarrow> error + string" where
  "py_key k =
     (case k of
        PyStr s \<Rightarrow> Inr s
      | _ \<Rightarrow> Inl (TypeError ''group key is not a string''))"

text \<open>
  One group of \<^verbatim>\<open>load\<close>, here for the classes (the five blocks differ in the name
  of the group only):
  \<^verbatim>\<open>
    classes = None
    if "classes" in dataset:
        classes = {}
        for k, v in dataset["classes"]:
            classes[k] = Dataset.resolve_file_path(dataset_dir, v)
  \<close>
\<close>

definition load_group ::
  "('t, 'd) collab \<Rightarrow> path \<Rightarrow> pyval \<Rightarrow> string \<Rightarrow>
   (('t, 'd) io, (string \<times> 't arg) list option) sx" where
  "load_group C dataset_dir dataset grp =
     seq (lift (py_contains grp dataset)) (\<lambda>present.
       if \<not> present then ret None
       else
         seq (lift (py_getitem dataset grp)) (\<lambda>g.
         seq (lift (py_iter g)) (\<lambda>items.
         seq (for_each items
                (\<lambda>item d.
                   seq (lift (py_unpack2 item)) (\<lambda>(k, v).
                   seq (resolve_file_path C dataset_dir v) (\<lambda>p.
                   seq (lift (py_key k)) (\<lambda>ks.
                   ret (AList.update ks (ArgPath p) d)))))
                []) (\<lambda>d.
         ret (Some d)))))"

text \<open>Calling a method on a new object; the caller keeps the object.\<close>

definition on_object ::
  "'t dataset \<Rightarrow> (('t, 'd) world, unit) sx \<Rightarrow> (('t, 'd) io, 't dataset) sx" where
  "on_object ds m =
     (\<lambda>r. case m \<lparr>disk = disk r, trace = trace r, self = ds\<rparr> of
             (res, w) \<Rightarrow> (map_sum id (\<lambda>_. self w) res, \<lparr>disk = disk w, trace = trace w\<rparr>))"

text \<open>
  \<^verbatim>\<open>
    dataset_dir, dataset_file = Dataset.resolve_dataset_path(dataset_path)
    with open(dataset_file, "w") as f:
        dataset = yaml.safe_load(f)
    assert "segments" in dataset
    segments = Dataset.resolve_file_path(dataset_dir, dataset["segments"])
    (the five groups)
    dataset = cls(segments, classes, recordings, features, enrollments, trials,
                  sparse_trials=sparse_trials)
    if not lazy:
        dataset.update_from_disk()
    return dataset
  \<close>
  \<open>load_manifest\<close> is the first three lines, \<open>load_registry\<close> the rest.
\<close>

definition load_manifest ::
  "('t, 'd) collab \<Rightarrow> path \<Rightarrow> (('t, 'd) io, pyval) sx" where
  "load_manifest C dataset_file =
     seq (io_open C dataset_file ModeW) (\<lambda>f.
     yaml_safe_load C f)"

definition load_registry ::
  "('t, 'd) collab \<Rightarrow> path \<Rightarrow> pyval \<Rightarrow> bool \<Rightarrow> bool \<Rightarrow> (('t, 'd) io, 't dataset) sx" where
  "load_registry C dataset_dir dataset lazy sparse_trials0 =
     seq (lift (py_contains ''segments'' dataset)) (\<lambda>present.
     seq (if present then ret () else throw AssertionError) (\<lambda>_.
     seq (lift (py_getitem dataset ''segments'')) (\<lambda>v.
     seq (resolve_file_path C dataset_dir v) (\<lambda>segments0.
     seq (load_group C dataset_dir dataset ''classes'') (\<lambda>classes0.
     seq (load_group C dataset_dir dataset ''recordings'') (\<lambda>recordings0.
     seq (load_group C dataset_dir dataset ''features'') (\<lambda>features0.
     seq (load_group C dataset_dir dataset ''enrollments'') (\<lambda>enrollments0.
     seq (load_group C dataset_dir dataset ''trials'') (\<lambda>trials0.
     seq (lift (init C (ArgPath segments0) classes0 recordings0 features0 enrollments0
                  trials0 sparse_trials0 None)) (\<lambda>ds.
     if \<not> lazy then on_object ds (update_from_disk C) else ret ds))))))))))"

definition load ::
  "('t, 'd) collab \<Rightarrow> pathlike \<Rightarrow> bool \<Rightarrow> bool \<Rightarrow> (('t, 'd) io, 't dataset) sx" where
  "load C dataset_path lazy sparse_trials0 =
     (let (dataset_dir, dataset_file) = resolve_dataset_path dataset_path
      in seq (load_manifest C dataset_file) (\<lambda>dataset.
         load_registry C dataset_dir dataset lazy sparse_trials0))"

section \<open>An in-memory file system for the examples\<close>

text \<open>
  The examples below run the registry on concrete collaborators: a table is its
  class and a number that stands for its contents, the disk is an association list
  from paths to files, a \<^verbatim>\<open>load\<close> succeeds when the file holds a table of the class
  asked for, and every write succeeds.
\<close>

datatype tbl = Tbl kind nat

datatype dfile = TableFile tbl | YamlFile pyval | EmptyFile

type_synonym mem_disk = "(path \<times> dfile) list"

definition mem_load :: "kind \<Rightarrow> pathlike \<Rightarrow> sep_arg \<Rightarrow> mem_disk \<Rightarrow> (error + tbl) \<times> mem_disk" where
  "mem_load k p sa d =
     (case map_of d (to_Path p) of
        Some (TableFile (Tbl k1 n)) \<Rightarrow>
          (if k1 = k then (Inr (Tbl k1 n), d) else (Inl (FormatError ''wrong table kind''), d))
      | Some _ \<Rightarrow> (Inl (FormatError ''not a table''), d)
      | None \<Rightarrow> (Inl (NotFoundError ''no such file''), d))"

definition mem_open :: "path \<Rightarrow> mode \<Rightarrow> mem_disk \<Rightarrow> (error + unit) \<times> mem_disk" where
  "mem_open p m d =
     (case m of
        ModeW \<Rightarrow> (Inr (), AList.update p EmptyFile d)
      | ModeR \<Rightarrow> (if map_of d p = None then (Inl (NotFoundError ''no such file''), d)
                  else (Inr (), d)))"

definition mem_yaml_read :: "path \<Rightarrow> mem_disk \<Rightarrow> (error + pyval) \<times> mem_disk" where
  "mem_yaml_read p d =
     (case map_of d p of
        Some (YamlFile v) \<Rightarrow> (Inr v, d)
      | Some EmptyFile \<Rightarrow> (Inr PyNone, d)
      | _ \<Rightarrow> (Inl (FormatError ''not a document''), d))"

definition mem_collab :: "(tbl, mem_disk) collab" where
  "mem_collab =
     \<lparr>isinstance = (\<lambda>t k. case t of Tbl k1 n \<Rightarrow> k1 = k),
      table_load = mem_load,
      table_save = (\<lambda>t p sa d. (Inr (), AList.update p (TableFile t) d)),
      file_open = mem_open,
      yaml_read = mem_yaml_read,
      yaml_write = (\<lambda>p doc d. (Inr (), AList.update p (YamlFile doc) d)),
      is_file = (\<lambda>p d. map_of d p \<noteq> None)\<rparr>"

text \<open>
  A dataset directory \<^verbatim>\<open>data\<close> with one table of every kind (the trials file is in
  index form) and a manifest without \<^verbatim>\<open>segments\<close>.
\<close>

definition ex_disk :: mem_disk where
  "ex_disk =
     [(Path ''data/segments.csv'', TableFile (Tbl SegmentSet 1)),
      (Path ''data/rec.csv'', TableFile (Tbl RecordingSet 2)),
      (Path ''data/mfcc.csv'', TableFile (Tbl FeatureSet 3)),
      (Path ''data/spk.csv'', TableFile (Tbl ClassInfo 4)),
      (Path ''data/enr.csv'', TableFile (Tbl EnrollmentMap 5)),
      (Path ''data/tr.csv'', TableFile (Tbl TrialNdx 6)),
      (Path ''data/dataset.yaml'',
         YamlFile (PyDict [(''recordings'', PyDict [(''rec'', PyStr ''rec.csv'')])]))]"

text \<open>
  \<^verbatim>\<open>Dataset(segs, classes={"spk": "data/spk.csv"}, recordings={"rec": "data/rec.csv"},
  features={"mfcc": "data/mfcc.csv"}, enrollments={"enr": "data/enr.csv"},
  trials={"tr": "data/tr.csv"})\<close>, with a segment table in memory.
\<close>

definition ex_dataset :: "error + tbl dataset" where
  "ex_dataset =
     init mem_collab (ArgTable (Tbl SegmentSet 1))
       (Some [(''spk'', ArgStr ''data/spk.csv'')])
       (Some [(''rec'', ArgStr ''data/rec.csv'')])
       (Some [(''mfcc'', ArgStr ''data/mfcc.csv'')])
       (Some [(''enr'', ArgStr ''data/enr.csv'')])
       (Some [(''tr'', ArgStr ''data/tr.csv'')])
       False None"

definition ex_world :: "(tbl, mem_disk) world" where
  "ex_world =
     \<lparr>disk = ex_disk, trace = [],
      self = (case ex_dataset of Inr ds \<Rightarrow> ds | Inl e \<Rightarrow> undefined)\<rparr>"

text \<open>\<^verbatim>\<open>Dataset("data/segments.csv")\<close>: the segment table is given by its path.\<close>

definition ex_path_world :: "(tbl, mem_disk) world" where
  "ex_path_world =
     \<lparr>disk = ex_disk, trace = [],
      self = (case init mem_collab (ArgStr ''data/segments.csv'') None None None None None
                     False None of
                Inr ds \<Rightarrow> ds
              | Inl e \<Rightarrow> undefined)\<rparr>"

text \<open>\<^verbatim>\<open>Dataset(segs, recordings={})\<close>: the recordings are configured, with no key.\<close>

definition ex_empty_world :: "(tbl, mem_disk) world" where
  "ex_empty_world =
     \<lparr>disk = ex_disk, trace = [],
      self = (case init mem_collab (ArgTable (Tbl SegmentSet 1)) None (Some []) None None None
                     False None of
                Inr ds \<Rightarrow> ds
              | Inl e \<Rightarrow> undefined)\<rparr>"

text \<open>The disk after \<^verbatim>\<open>ex.save("out")\<close>, and the manifest that this call wrote.\<close>

definition ex_saved_io :: "(tbl, mem_disk) io" where
  "ex_saved_io =
     (let w = snd (save mem_collab (PStr ''out'') True None ex_world)
      in \<lparr>disk = disk w, trace = []\<rparr>)"

definition ex_manifest :: pyval where
  "ex_manifest =
     PyDict [(''segments'', PyStr ''segments.csv''),
             (''recordings'', PyDict [(''rec'', PyStr ''rec.csv'')]),
             (''features'', PyDict [(''mfcc'', PyStr ''mfcc.csv'')]),
             (''classes'', PyDict [(''spk'', PyStr ''spk.csv'')]),
             (''enrollments'', PyDict [(''enr'', PyStr ''enr.csv'')]),
             (''trials'', PyDict [(''tr'', PyStr ''tr.csv'')])]"

section \<open>The five groups\<close>

text \<open>
  The five accessors differ in the attributes they use and in the loader they call.
  To state a property of all of them at once, a group names its two attributes and
  its accessor.
\<close>

datatype grp = Recordings | Features | Classes | Enrollments | Trials

fun slots :: "grp \<Rightarrow> 't dataset \<Rightarrow> (string \<times> 't option) list option" where
  "slots Recordings s = u_recordings s"
| "slots Features s = u_features s"
| "slots Classes s = u_classes s"
| "slots Enrollments s = u_enrollments s"
| "slots Trials s = u_trials s"

fun slot_paths :: "grp \<Rightarrow> 't dataset \<Rightarrow> (string \<times> pathlike option) list option" where
  "slot_paths Recordings s = u_recordings_paths s"
| "slot_paths Features s = u_features_paths s"
| "slot_paths Classes s = u_classes_paths s"
| "slot_paths Enrollments s = u_enrollments_paths s"
| "slot_paths Trials s = u_trials_paths s"

fun accessor ::
  "('t, 'd) collab \<Rightarrow> grp \<Rightarrow> string \<Rightarrow> bool \<Rightarrow> (('t, 'd) world, 't option) sx" where
  "accessor C Recordings = recordings_value C"
| "accessor C Features = features_value C"
| "accessor C Classes = classes_value C"
| "accessor C Enrollments = enrollments_value C"
| "accessor C Trials = trials_value C"

text \<open>The key of a group in the manifest.\<close>

fun group_name :: "grp \<Rightarrow> string" where
  "group_name Recordings = ''recordings''"
| "group_name Features = ''features''"
| "group_name Classes = ''classes''"
| "group_name Enrollments = ''enrollments''"
| "group_name Trials = ''trials''"

text \<open>
  What the loaders answer when the table of a key of the group is read from the
  path \<open>p\<close>: every group calls one loader, with the separator of the object, except
  the trials, whose loader gets the path alone and, when it raises, is followed by
  \<^verbatim>\<open>TrialNdx.load\<close>. The value is the result, the disk that is left and the calls made.
\<close>

fun loader_call :: "grp \<Rightarrow> 't dataset \<Rightarrow> kind \<times> sep_arg" where
  "loader_call Recordings s = (RecordingSet, Sep (table_sep s))"
| "loader_call Features s = (FeatureSet, Sep (table_sep s))"
| "loader_call Classes s = (ClassInfo, Sep (table_sep s))"
| "loader_call Enrollments s = (EnrollmentMap, Sep (table_sep s))"
| "loader_call Trials s = (if sparse_trials s then SparseTrialKey else TrialKey, NoSep)"

definition group_load ::
  "('t, 'd) collab \<Rightarrow> grp \<Rightarrow> 't dataset \<Rightarrow> pathlike \<Rightarrow> 'd \<Rightarrow> (error + 't) \<times> 'd \<times> 't event list" where
  "group_load C g s p d =
     (case loader_call g s of (k, sa) \<Rightarrow>
        (case table_load C k p sa d of
           (Inr t, d1) \<Rightarrow> (Inr t, d1, [Load k p sa])
         | (Inl e, d1) \<Rightarrow>
             (if g = Trials
              then (case table_load C TrialNdx p NoSep d1 of
                      (r, d2) \<Rightarrow> (r, d2, [Load k p sa, Load TrialNdx p NoSep]))
              else (Inl e, d1, [Load k p sa]))))"

text \<open>A call of a loader on the path \<open>p\<close>.\<close>

definition is_load_of :: "pathlike \<Rightarrow> 't event \<Rightarrow> bool" where
  "is_load_of p ev = (case ev of Load k q sa \<Rightarrow> q = p | _ \<Rightarrow> False)"

section \<open>What a statement keeps\<close>

text \<open>
  A statement is steady for a property \<open>Q\<close> of the object and a property \<open>P\<close> of
  calls when, run on an object with \<open>Q\<close>, it leaves an object with \<open>Q\<close> and adds to the
  trace only calls with \<open>P\<close>, whether it returns or raises.
\<close>

definition steady ::
  "('t dataset \<Rightarrow> bool) \<Rightarrow> ('t event \<Rightarrow> bool) \<Rightarrow> (('t, 'd) world, 'a) sx \<Rightarrow> bool" where
  "steady Q P m =
     (\<forall>w. Q (self w) \<longrightarrow>
          Q (self (snd (m w)))
          \<and> (\<exists>evs. trace (snd (m w)) = trace w @ evs \<and> list_all P evs))"

text \<open>The same with two phases: calls with \<open>P1\<close>, followed by calls with \<open>P2\<close>.\<close>

definition steady2 ::
  "('t dataset \<Rightarrow> bool) \<Rightarrow> ('t event \<Rightarrow> bool) \<Rightarrow> ('t event \<Rightarrow> bool) \<Rightarrow>
   (('t, 'd) world, 'a) sx \<Rightarrow> bool" where
  "steady2 Q P1 P2 m =
     (\<forall>w. Q (self w) \<longrightarrow>
          Q (self (snd (m w)))
          \<and> (\<exists>evs1 evs2. trace (snd (m w)) = trace w @ evs1 @ evs2
                \<and> list_all P1 evs1 \<and> list_all P2 evs2))"

text \<open>
  What the methods keep of an object \<open>s0\<close>: the separator, the keys of every group
  and, unless \<open>up\<close> (\<^verbatim>\<open>update_paths\<close>) is set, the path of the segments and the paths
  of every group.
\<close>

definition kept :: "bool \<Rightarrow> 't dataset \<Rightarrow> 't dataset \<Rightarrow> bool" where
  "kept up s0 s =
     (table_sep s = table_sep s0
      \<and> (\<forall>g. map_option (map fst) (slots g s) = map_option (map fst) (slots g s0))
      \<and> (up \<or> (u_segments_path s = u_segments_path s0
                \<and> (\<forall>g. slot_paths g s = slot_paths g s0))))"

text \<open>
  The calls of \<^verbatim>\<open>save\<close> that carry a separator: a load of a table that is not a
  trials table, with the separator \<open>ld\<close>, and a save with the separator \<open>sv\<close>; and its
  calls without a separator: the loads and saves of the trials, and the writing of the
  manifest.
\<close>

definition sep_event :: "string option \<Rightarrow> string option \<Rightarrow> 't event \<Rightarrow> bool" where
  "sep_event ld sv ev =
     (case ev of
        Load k p sa \<Rightarrow>
          k \<in> {SegmentSet, RecordingSet, FeatureSet, ClassInfo, EnrollmentMap} \<and> sa = Sep ld
      | Save t p sa \<Rightarrow> sa = Sep sv
      | _ \<Rightarrow> False)"

definition nosep_event :: "'t event \<Rightarrow> bool" where
  "nosep_event ev =
     (case ev of
        Load k p sa \<Rightarrow> k \<in> {TrialKey, TrialNdx, SparseTrialKey} \<and> sa = NoSep
      | Save t p sa \<Rightarrow> sa = NoSep
      | Open p m \<Rightarrow> m = ModeW
      | Dump p doc \<Rightarrow> True
      | _ \<Rightarrow> False)"

section \<open>Path resolution\<close>

text \<open>
  C8. \<^verbatim>\<open>resolve_dataset_path\<close> is to take a path with a manifest extension
  (\<^verbatim>\<open>.yaml\<close> or \<^verbatim>\<open>.yml\<close>) as the manifest file. The list of extensions in the source
  holds \<^verbatim>\<open>"yml"\<close> without its dot, which no suffix equals: \<^verbatim>\<open>exp/ds.yml\<close> is taken as a
  directory, with the manifest \<^verbatim>\<open>exp/ds.yml/dataset.yaml\<close>, while \<^verbatim>\<open>exp/ds.yaml\<close> is
  taken as the manifest file.
\<close>

theorem resolve_dataset_path_yml:
  "resolve_dataset_path (PStr ''exp/ds.yml'')
     = (PurePath [] [''exp'', ''ds.yml''], PurePath [] [''exp'', ''ds.yml'', ''dataset.yaml''])
   \<and> resolve_dataset_path (PStr ''exp/ds.yaml'')
     = (PurePath [] [''exp''], PurePath [] [''exp'', ''ds.yaml''])"
  by code_simp

section \<open>Accessors on a path reference\<close>

text \<open>
  C1. With \<^verbatim>\<open>keep_loaded=False\<close>, an accessor of a group is to return the table it
  has just loaded. The five accessors load the table and then return the slot, which
  still holds \<^verbatim>\<open>None\<close>: on the example dataset each of them returns \<^verbatim>\<open>None\<close>, after
  a load that the trace records.
\<close>

theorem accessors_without_keep_return_None:
  "recordings_value mem_collab ''rec'' False ex_world
     = (Inr None, ex_world\<lparr>trace := [Load RecordingSet (PStr ''data/rec.csv'') (Sep None)]\<rparr>)
   \<and> features_value mem_collab ''mfcc'' False ex_world
     = (Inr None, ex_world\<lparr>trace := [Load FeatureSet (PStr ''data/mfcc.csv'') (Sep None)]\<rparr>)
   \<and> classes_value mem_collab ''spk'' False ex_world
     = (Inr None, ex_world\<lparr>trace := [Load ClassInfo (PStr ''data/spk.csv'') (Sep None)]\<rparr>)
   \<and> enrollments_value mem_collab ''enr'' False ex_world
     = (Inr None, ex_world\<lparr>trace := [Load EnrollmentMap (PStr ''data/enr.csv'') (Sep None)]\<rparr>)
   \<and> trials_value mem_collab ''tr'' False ex_world
     = (Inr None, ex_world\<lparr>trace := [Load TrialKey (PStr ''data/tr.csv'') NoSep,
                                       Load TrialNdx (PStr ''data/tr.csv'') NoSep]\<rparr>)"
  by code_simp

text \<open>
  C4. \<^verbatim>\<open>segments\<close> is to load the segment table from the stored path when the slot
  holds a path only. It reads the attribute \<^verbatim>\<open>segments_path\<close>, which the class does
  not define (the constructor sets \<^verbatim>\<open>_segments_path\<close>): the call raises
  \<^verbatim>\<open>AttributeError\<close> before any load, and changes nothing.
\<close>

theorem segments_of_path_raises:
  "u_segments (self ex_path_world) = None
   \<and> u_segments_path (self ex_path_world) = Some (PurePath [] [''data'', ''segments.csv''])
   \<and> segments mem_collab True ex_path_world
       = (Inl (AttributeError ''segments_path''), ex_path_world)
   \<and> segments mem_collab False ex_path_world
       = (Inl (AttributeError ''segments_path''), ex_path_world)"
  by code_simp

section \<open>Loading a dataset\<close>

text \<open>
  C2. \<^verbatim>\<open>load\<close> is to parse the manifest and to fail on a manifest without
  \<^verbatim>\<open>segments\<close> because that key is missing. It opens the manifest with mode
  \<^verbatim>\<open>"w"\<close>: the file is emptied, and reading the stream raises
  \<^verbatim>\<open>UnsupportedOperation\<close>. On the example directory, whose manifest has no
  \<^verbatim>\<open>segments\<close>, the error is that one and the manifest is left empty; the check of
  the key, which \<open>load_registry\<close> starts with, is not reached.
\<close>

theorem load_opens_manifest_for_writing:
  "map_of ex_disk (PurePath [] [''data'', ''dataset.yaml''])
     = Some (YamlFile (PyDict [(''recordings'', PyDict [(''rec'', PyStr ''rec.csv'')])]))
   \<and> fst (load mem_collab (PStr ''data'') True False \<lparr>disk = ex_disk, trace = []\<rparr>)
     = Inl (UnsupportedOperation ''not readable'')
   \<and> trace (snd (load mem_collab (PStr ''data'') True False \<lparr>disk = ex_disk, trace = []\<rparr>))
     = [Open (PurePath [] [''data'', ''dataset.yaml'']) ModeW]
   \<and> map_of (disk (snd (load mem_collab (PStr ''data'') True False
                          \<lparr>disk = ex_disk, trace = []\<rparr>)))
        (PurePath [] [''data'', ''dataset.yaml''])
     = Some EmptyFile
   \<and> fst (load_registry mem_collab (PurePath [] [''data''])
            (PyDict [(''recordings'', PyDict [(''rec'', PyStr ''rec.csv'')])]) True False
            \<lparr>disk = ex_disk, trace = []\<rparr>)
     = Inl AssertionError"
  by code_simp

text \<open>
  C7. \<^verbatim>\<open>load\<close> is to build, for every group of the manifest, the mapping from its
  keys to the resolved paths, and to construct the registry from them. On the
  directory that \<^verbatim>\<open>save\<close> has just written, \<^verbatim>\<open>load\<close> returns no registry: it fails
  on the stream opened for writing, as in C2. The rest of \<^verbatim>\<open>load\<close>, run on the
  manifest that was written, fails as well: it calls \<^verbatim>\<open>is_file\<close> on the string
  recorded for \<^verbatim>\<open>segments\<close>.
\<close>

theorem load_after_save_fails:
  "map_of (disk ex_saved_io) (PurePath [] [''out'', ''dataset.yaml''])
     = Some (YamlFile ex_manifest)
   \<and> fst (load mem_collab (PStr ''out'') True False ex_saved_io)
     = Inl (UnsupportedOperation ''not readable'')
   \<and> fst (load_registry mem_collab (PurePath [] [''out'']) ex_manifest True False ex_saved_io)
     = Inl (AttributeError ''is_file'')"
  by code_simp

section \<open>Rules for running statements\<close>

lemma ret_apply [simp]: "ret a s = (Inr a, s)"
  by (simp add: ret_def)

lemma throw_apply [simp]: "throw e s = (Inl e, s)"
  by (simp add: throw_def)

lemma lift_apply [simp]: "lift r s = (r, s)"
  by (simp add: lift_def)

lemma self_get_apply [simp]: "self_get f w = (f (self w), w)"
  by (simp add: self_get_def)

lemma self_set_Inr [simp]: "f (self w) = Inr s \<Longrightarrow> self_set f w = (Inr (), w\<lparr>self := s\<rparr>)"
  by (simp add: self_set_def)

lemma self_set_Inl [simp]: "f (self w) = Inl e \<Longrightarrow> self_set f w = (Inl e, w)"
  by (simp add: self_set_def)

lemma seq_Inr [simp]: "m s = (Inr a, s1) \<Longrightarrow> seq m f s = f a s1"
  by (simp add: seq_def)

lemma seq_Inl [simp]: "m s = (Inl e, s1) \<Longrightarrow> seq m f s = (Inl e, s1)"
  by (simp add: seq_def)

lemma try_Inr [simp]: "m s = (Inr a, s1) \<Longrightarrow> try_except m h s = (Inr a, s1)"
  by (simp add: try_except_def)

lemma try_Inl [simp]: "m s = (Inl e, s1) \<Longrightarrow> try_except m h s = h s1"
  by (simp add: try_except_def)

lemma io_load_Inr [simp]:
  "table_load C k p sa (disk w) = (Inr t, d) \<Longrightarrow>
   io_load C k p sa w = (Inr t, w\<lparr>disk := d, trace := trace w @ [Load k p sa]\<rparr>)"
  by (simp add: io_load_def)

lemma io_load_Inl [simp]:
  "table_load C k p sa (disk w) = (Inl e, d) \<Longrightarrow>
   io_load C k p sa w = (Inl e, w\<lparr>disk := d, trace := trace w @ [Load k p sa]\<rparr>)"
  by (simp add: io_load_def)

lemma getitem_InrD: "getitem d k = Inr v \<Longrightarrow> \<exists>m. d = Some m \<and> map_of m k = Some v"
  by (auto simp: getitem_def split: option.splits)

lemma getitem_Some [simp]:
  "getitem (Some m) k = (case map_of m k of None \<Rightarrow> Inl (KeyError k) | Some v \<Rightarrow> Inr v)"
  by (simp add: getitem_def)

lemma setitem_Some [simp]: "setitem (Some m) k v = Inr (Some (AList.update k v m))"
  by (simp add: setitem_def)

section \<open>An accessor on a loaded slot and on a path reference\<close>

lemma recordings_value_loaded:
  assumes "getitem (u_recordings (self w)) key = Inr (Some t)"
  shows "recordings_value C key keep w = (Inr (Some t), w)"
  using assms by (simp add: recordings_value_def)

lemma recordings_value_ref_ok:
  assumes "u_recordings (self w) = Some m" "map_of m key = Some None"
      and "getitem (u_recordings_paths (self w)) key = Inr (Some p)"
      and "table_load C RecordingSet p (Sep (table_sep (self w))) (disk w) = (Inr t, d)"
  shows "recordings_value C key True w =
           (Inr (Some t), w\<lparr>disk := d,
               trace := trace w @ [Load RecordingSet p (Sep (table_sep (self w)))],
               self := (self w)\<lparr>u_recordings := Some (AList.update key (Some t) m)\<rparr>\<rparr>)"
  using assms by (simp add: recordings_value_def update_conv')

lemma recordings_value_ref_err:
  assumes "u_recordings (self w) = Some m" "map_of m key = Some None"
      and "getitem (u_recordings_paths (self w)) key = Inr (Some p)"
      and "table_load C RecordingSet p (Sep (table_sep (self w))) (disk w) = (Inl e, d)"
  shows "recordings_value C key keep w =
           (Inl e, w\<lparr>disk := d,
               trace := trace w @ [Load RecordingSet p (Sep (table_sep (self w)))]\<rparr>)"
  using assms by (simp add: recordings_value_def)

lemma recordings_value_keep:
  assumes "getitem (u_recordings (self w)) key = Inr None"
      and "getitem (u_recordings_paths (self w)) key = Inr (Some p)"
      and "table_load C RecordingSet p (Sep (table_sep (self w))) (disk w) = (Inr t, d)"
  shows "\<exists>w1. recordings_value C key True w = (Inr (Some t), w1)
           \<and> trace w1 = trace w @ [Load RecordingSet p (Sep (table_sep (self w)))]
           \<and> disk w1 = d
           \<and> getitem (u_recordings (self w1)) key = Inr (Some t)
           \<and> recordings_value C key True w1 = (Inr (Some t), w1)"
proof -
  from assms(1) obtain m where m: "u_recordings (self w) = Some m" "map_of m key = Some None"
    by (blast dest: getitem_InrD)
  define w1 where "w1 = w\<lparr>disk := d,
               trace := trace w @ [Load RecordingSet p (Sep (table_sep (self w)))],
               self := (self w)\<lparr>u_recordings := Some (AList.update key (Some t) m)\<rparr>\<rparr>"
  have r: "recordings_value C key True w = (Inr (Some t), w1)"
    unfolding w1_def by (rule recordings_value_ref_ok [OF m assms(2) assms(3)])
  have g: "getitem (u_recordings (self w1)) key = Inr (Some t)"
    by (simp add: w1_def update_conv')
  have tr: "trace w1 = trace w @ [Load RecordingSet p (Sep (table_sep (self w)))]"
    and dk: "disk w1 = d"
    by (simp_all add: w1_def)
  from r tr dk g recordings_value_loaded [OF g, of C True] show ?thesis
    by blast
qed

lemma features_value_loaded:
  assumes "getitem (u_features (self w)) key = Inr (Some t)"
  shows "features_value C key keep w = (Inr (Some t), w)"
  using assms by (simp add: features_value_def)

lemma features_value_ref_ok:
  assumes "u_features (self w) = Some m" "map_of m key = Some None"
      and "getitem (u_features_paths (self w)) key = Inr (Some p)"
      and "table_load C FeatureSet p (Sep (table_sep (self w))) (disk w) = (Inr t, d)"
  shows "features_value C key True w =
           (Inr (Some t), w\<lparr>disk := d,
               trace := trace w @ [Load FeatureSet p (Sep (table_sep (self w)))],
               self := (self w)\<lparr>u_features := Some (AList.update key (Some t) m)\<rparr>\<rparr>)"
  using assms by (simp add: features_value_def update_conv')

lemma features_value_ref_err:
  assumes "u_features (self w) = Some m" "map_of m key = Some None"
      and "getitem (u_features_paths (self w)) key = Inr (Some p)"
      and "table_load C FeatureSet p (Sep (table_sep (self w))) (disk w) = (Inl e, d)"
  shows "features_value C key keep w =
           (Inl e, w\<lparr>disk := d,
               trace := trace w @ [Load FeatureSet p (Sep (table_sep (self w)))]\<rparr>)"
  using assms by (simp add: features_value_def)

lemma features_value_keep:
  assumes "getitem (u_features (self w)) key = Inr None"
      and "getitem (u_features_paths (self w)) key = Inr (Some p)"
      and "table_load C FeatureSet p (Sep (table_sep (self w))) (disk w) = (Inr t, d)"
  shows "\<exists>w1. features_value C key True w = (Inr (Some t), w1)
           \<and> trace w1 = trace w @ [Load FeatureSet p (Sep (table_sep (self w)))]
           \<and> disk w1 = d
           \<and> getitem (u_features (self w1)) key = Inr (Some t)
           \<and> features_value C key True w1 = (Inr (Some t), w1)"
proof -
  from assms(1) obtain m where m: "u_features (self w) = Some m" "map_of m key = Some None"
    by (blast dest: getitem_InrD)
  define w1 where "w1 = w\<lparr>disk := d,
               trace := trace w @ [Load FeatureSet p (Sep (table_sep (self w)))],
               self := (self w)\<lparr>u_features := Some (AList.update key (Some t) m)\<rparr>\<rparr>"
  have r: "features_value C key True w = (Inr (Some t), w1)"
    unfolding w1_def by (rule features_value_ref_ok [OF m assms(2) assms(3)])
  have g: "getitem (u_features (self w1)) key = Inr (Some t)"
    by (simp add: w1_def update_conv')
  have tr: "trace w1 = trace w @ [Load FeatureSet p (Sep (table_sep (self w)))]"
    and dk: "disk w1 = d"
    by (simp_all add: w1_def)
  from r tr dk g features_value_loaded [OF g, of C True] show ?thesis
    by blast
qed

lemma classes_value_loaded:
  assumes "getitem (u_classes (self w)) key = Inr (Some t)"
  shows "classes_value C key keep w = (Inr (Some t), w)"
  using assms by (simp add: classes_value_def)

lemma classes_value_ref_ok:
  assumes "u_classes (self w) = Some m" "map_of m key = Some None"
      and "getitem (u_classes_paths (self w)) key = Inr (Some p)"
      and "table_load C ClassInfo p (Sep (table_sep (self w))) (disk w) = (Inr t, d)"
  shows "classes_value C key True w =
           (Inr (Some t), w\<lparr>disk := d,
               trace := trace w @ [Load ClassInfo p (Sep (table_sep (self w)))],
               self := (self w)\<lparr>u_classes := Some (AList.update key (Some t) m)\<rparr>\<rparr>)"
  using assms by (simp add: classes_value_def update_conv')

lemma classes_value_ref_err:
  assumes "u_classes (self w) = Some m" "map_of m key = Some None"
      and "getitem (u_classes_paths (self w)) key = Inr (Some p)"
      and "table_load C ClassInfo p (Sep (table_sep (self w))) (disk w) = (Inl e, d)"
  shows "classes_value C key keep w =
           (Inl e, w\<lparr>disk := d,
               trace := trace w @ [Load ClassInfo p (Sep (table_sep (self w)))]\<rparr>)"
  using assms by (simp add: classes_value_def)

lemma classes_value_keep:
  assumes "getitem (u_classes (self w)) key = Inr None"
      and "getitem (u_classes_paths (self w)) key = Inr (Some p)"
      and "table_load C ClassInfo p (Sep (table_sep (self w))) (disk w) = (Inr t, d)"
  shows "\<exists>w1. classes_value C key True w = (Inr (Some t), w1)
           \<and> trace w1 = trace w @ [Load ClassInfo p (Sep (table_sep (self w)))]
           \<and> disk w1 = d
           \<and> getitem (u_classes (self w1)) key = Inr (Some t)
           \<and> classes_value C key True w1 = (Inr (Some t), w1)"
proof -
  from assms(1) obtain m where m: "u_classes (self w) = Some m" "map_of m key = Some None"
    by (blast dest: getitem_InrD)
  define w1 where "w1 = w\<lparr>disk := d,
               trace := trace w @ [Load ClassInfo p (Sep (table_sep (self w)))],
               self := (self w)\<lparr>u_classes := Some (AList.update key (Some t) m)\<rparr>\<rparr>"
  have r: "classes_value C key True w = (Inr (Some t), w1)"
    unfolding w1_def by (rule classes_value_ref_ok [OF m assms(2) assms(3)])
  have g: "getitem (u_classes (self w1)) key = Inr (Some t)"
    by (simp add: w1_def update_conv')
  have tr: "trace w1 = trace w @ [Load ClassInfo p (Sep (table_sep (self w)))]"
    and dk: "disk w1 = d"
    by (simp_all add: w1_def)
  from r tr dk g classes_value_loaded [OF g, of C True] show ?thesis
    by blast
qed

lemma enrollments_value_loaded:
  assumes "getitem (u_enrollments (self w)) key = Inr (Some t)"
  shows "enrollments_value C key keep w = (Inr (Some t), w)"
  using assms by (simp add: enrollments_value_def)

lemma enrollments_value_ref_ok:
  assumes "u_enrollments (self w) = Some m" "map_of m key = Some None"
      and "getitem (u_enrollments_paths (self w)) key = Inr (Some p)"
      and "table_load C EnrollmentMap p (Sep (table_sep (self w))) (disk w) = (Inr t, d)"
  shows "enrollments_value C key True w =
           (Inr (Some t), w\<lparr>disk := d,
               trace := trace w @ [Load EnrollmentMap p (Sep (table_sep (self w)))],
               self := (self w)\<lparr>u_enrollments := Some (AList.update key (Some t) m)\<rparr>\<rparr>)"
  using assms by (simp add: enrollments_value_def update_conv')

lemma enrollments_value_ref_err:
  assumes "u_enrollments (self w) = Some m" "map_of m key = Some None"
      and "getitem (u_enrollments_paths (self w)) key = Inr (Some p)"
      and "table_load C EnrollmentMap p (Sep (table_sep (self w))) (disk w) = (Inl e, d)"
  shows "enrollments_value C key keep w =
           (Inl e, w\<lparr>disk := d,
               trace := trace w @ [Load EnrollmentMap p (Sep (table_sep (self w)))]\<rparr>)"
  using assms by (simp add: enrollments_value_def)

lemma enrollments_value_keep:
  assumes "getitem (u_enrollments (self w)) key = Inr None"
      and "getitem (u_enrollments_paths (self w)) key = Inr (Some p)"
      and "table_load C EnrollmentMap p (Sep (table_sep (self w))) (disk w) = (Inr t, d)"
  shows "\<exists>w1. enrollments_value C key True w = (Inr (Some t), w1)
           \<and> trace w1 = trace w @ [Load EnrollmentMap p (Sep (table_sep (self w)))]
           \<and> disk w1 = d
           \<and> getitem (u_enrollments (self w1)) key = Inr (Some t)
           \<and> enrollments_value C key True w1 = (Inr (Some t), w1)"
proof -
  from assms(1) obtain m where m: "u_enrollments (self w) = Some m" "map_of m key = Some None"
    by (blast dest: getitem_InrD)
  define w1 where "w1 = w\<lparr>disk := d,
               trace := trace w @ [Load EnrollmentMap p (Sep (table_sep (self w)))],
               self := (self w)\<lparr>u_enrollments := Some (AList.update key (Some t) m)\<rparr>\<rparr>"
  have r: "enrollments_value C key True w = (Inr (Some t), w1)"
    unfolding w1_def by (rule enrollments_value_ref_ok [OF m assms(2) assms(3)])
  have g: "getitem (u_enrollments (self w1)) key = Inr (Some t)"
    by (simp add: w1_def update_conv')
  have tr: "trace w1 = trace w @ [Load EnrollmentMap p (Sep (table_sep (self w)))]"
    and dk: "disk w1 = d"
    by (simp_all add: w1_def)
  from r tr dk g enrollments_value_loaded [OF g, of C True] show ?thesis
    by blast
qed

lemma trials_value_loaded:
  assumes "getitem (u_trials (self w)) key = Inr (Some t)"
  shows "trials_value C key keep w = (Inr (Some t), w)"
  using assms by (simp add: trials_value_def)

lemma trials_value_first_ok:
  assumes "u_trials (self w) = Some m" "map_of m key = Some None"
      and "getitem (u_trials_paths (self w)) key = Inr (Some p)"
      and "k1 = (if sparse_trials (self w) then SparseTrialKey else TrialKey)"
      and "table_load C k1 p NoSep (disk w) = (Inr t, d1)"
  shows "trials_value C key keep w =
          (Inr (if keep then Some t else None),
           w\<lparr>disk := d1, trace := trace w @ [Load k1 p NoSep],
             self := (if keep then (self w)\<lparr>u_trials := Some (AList.update key (Some t) m)\<rparr>
                      else self w)\<rparr>)"
proof (cases "sparse_trials (self w)")
  case True
  with assms have "table_load C SparseTrialKey p NoSep (disk w) = (Inr t, d1)"
    and "k1 = SparseTrialKey"
    by simp_all
  with assms(1-3) True show ?thesis
    by (cases keep) (simp_all add: trials_value_def update_conv')
next
  case False
  with assms have "table_load C TrialKey p NoSep (disk w) = (Inr t, d1)"
    and "k1 = TrialKey"
    by simp_all
  with assms(1-3) False show ?thesis
    by (cases keep) (simp_all add: trials_value_def update_conv')
qed

lemma trials_value_second_ok:
  assumes "u_trials (self w) = Some m" "map_of m key = Some None"
      and "getitem (u_trials_paths (self w)) key = Inr (Some p)"
      and "k1 = (if sparse_trials (self w) then SparseTrialKey else TrialKey)"
      and "table_load C k1 p NoSep (disk w) = (Inl e1, d1)"
      and "table_load C TrialNdx p NoSep d1 = (Inr t, d2)"
  shows "trials_value C key keep w =
          (Inr (if keep then Some t else None),
           w\<lparr>disk := d2, trace := trace w @ [Load k1 p NoSep, Load TrialNdx p NoSep],
             self := (if keep then (self w)\<lparr>u_trials := Some (AList.update key (Some t) m)\<rparr>
                      else self w)\<rparr>)"
proof (cases "sparse_trials (self w)")
  case True
  with assms have "table_load C SparseTrialKey p NoSep (disk w) = (Inl e1, d1)"
    and "k1 = SparseTrialKey"
    by simp_all
  with assms(1-3,6) True show ?thesis
    by (cases keep) (simp_all add: trials_value_def update_conv')
next
  case False
  with assms have "table_load C TrialKey p NoSep (disk w) = (Inl e1, d1)"
    and "k1 = TrialKey"
    by simp_all
  with assms(1-3,6) False show ?thesis
    by (cases keep) (simp_all add: trials_value_def update_conv')
qed

lemma trials_value_second_err:
  assumes "u_trials (self w) = Some m" "map_of m key = Some None"
      and "getitem (u_trials_paths (self w)) key = Inr (Some p)"
      and "k1 = (if sparse_trials (self w) then SparseTrialKey else TrialKey)"
      and "table_load C k1 p NoSep (disk w) = (Inl e1, d1)"
      and "table_load C TrialNdx p NoSep d1 = (Inl e2, d2)"
  shows "trials_value C key keep w =
          (Inl e2,
           w\<lparr>disk := d2, trace := trace w @ [Load k1 p NoSep, Load TrialNdx p NoSep]\<rparr>)"
proof (cases "sparse_trials (self w)")
  case True
  with assms have "table_load C SparseTrialKey p NoSep (disk w) = (Inl e1, d1)"
    and "k1 = SparseTrialKey"
    by simp_all
  with assms(1-3,6) True show ?thesis
    by (simp add: trials_value_def update_conv')
next
  case False
  with assms have "table_load C TrialKey p NoSep (disk w) = (Inl e1, d1)"
    and "k1 = TrialKey"
    by simp_all
  with assms(1-3,6) False show ?thesis
    by (simp add: trials_value_def update_conv')
qed

lemma trials_value_keep_first:
  assumes "getitem (u_trials (self w)) key = Inr None"
      and "getitem (u_trials_paths (self w)) key = Inr (Some p)"
      and "k1 = (if sparse_trials (self w) then SparseTrialKey else TrialKey)"
      and "table_load C k1 p NoSep (disk w) = (Inr t, d)"
  shows "\<exists>w1. trials_value C key True w = (Inr (Some t), w1)
           \<and> trace w1 = trace w @ [Load k1 p NoSep]
           \<and> disk w1 = d
           \<and> getitem (u_trials (self w1)) key = Inr (Some t)
           \<and> trials_value C key True w1 = (Inr (Some t), w1)"
proof -
  from assms(1) obtain m where m: "u_trials (self w) = Some m" "map_of m key = Some None"
    by (blast dest: getitem_InrD)
  define w1 where "w1 = w\<lparr>disk := d, trace := trace w @ [Load k1 p NoSep],
               self := (self w)\<lparr>u_trials := Some (AList.update key (Some t) m)\<rparr>\<rparr>"
  from trials_value_first_ok [OF m assms(2) assms(3) assms(4), of True]
  have r: "trials_value C key True w = (Inr (Some t), w1)"
    by (simp add: w1_def)
  have g: "getitem (u_trials (self w1)) key = Inr (Some t)"
    by (simp add: w1_def update_conv')
  have tr: "trace w1 = trace w @ [Load k1 p NoSep]"
    and dk: "disk w1 = d"
    by (simp_all add: w1_def)
  from r tr dk g trials_value_loaded [OF g, of C True] show ?thesis
    by blast
qed

lemma trials_value_keep_second:
  assumes "getitem (u_trials (self w)) key = Inr None"
      and "getitem (u_trials_paths (self w)) key = Inr (Some p)"
      and "k1 = (if sparse_trials (self w) then SparseTrialKey else TrialKey)"
      and "table_load C k1 p NoSep (disk w) = (Inl e1, d1)"
      and "table_load C TrialNdx p NoSep d1 = (Inr t, d)"
  shows "\<exists>w1. trials_value C key True w = (Inr (Some t), w1)
           \<and> trace w1 = trace w @ [Load k1 p NoSep, Load TrialNdx p NoSep]
           \<and> disk w1 = d
           \<and> getitem (u_trials (self w1)) key = Inr (Some t)
           \<and> trials_value C key True w1 = (Inr (Some t), w1)"
proof -
  from assms(1) obtain m where m: "u_trials (self w) = Some m" "map_of m key = Some None"
    by (blast dest: getitem_InrD)
  define w1 where "w1 = w\<lparr>disk := d,
               trace := trace w @ [Load k1 p NoSep, Load TrialNdx p NoSep],
               self := (self w)\<lparr>u_trials := Some (AList.update key (Some t) m)\<rparr>\<rparr>"
  from trials_value_second_ok [OF m assms(2) assms(3) assms(4) assms(5), of True]
  have r: "trials_value C key True w = (Inr (Some t), w1)"
    by (simp add: w1_def)
  have g: "getitem (u_trials (self w1)) key = Inr (Some t)"
    by (simp add: w1_def update_conv')
  have tr: "trace w1 = trace w @ [Load k1 p NoSep, Load TrialNdx p NoSep]"
    and dk: "disk w1 = d"
    by (simp_all add: w1_def)
  from r tr dk g trials_value_loaded [OF g, of C True] show ?thesis
    by blast
qed

lemma group_load_simple:
  assumes "g \<noteq> Trials" and "loader_call g s = (k, sa)"
      and "group_load C g s p d0 = (Inr t, d, evs)"
  shows "table_load C k p sa d0 = (Inr t, d) \<and> evs = [Load k p sa]"
proof -
  obtain r d1 where ld: "table_load C k p sa d0 = (r, d1)"
    by (cases "table_load C k p sa d0")
  with assms show ?thesis
    by (cases r) (simp_all add: group_load_def)
qed

lemma group_load_trials:
  assumes "k1 = (if sparse_trials s then SparseTrialKey else TrialKey)"
      and "group_load C Trials s p d0 = (Inr t, d, evs)"
  shows "(table_load C k1 p NoSep d0 = (Inr t, d) \<and> evs = [Load k1 p NoSep])
         \<or> (\<exists>e1 d1. table_load C k1 p NoSep d0 = (Inl e1, d1)
                \<and> table_load C TrialNdx p NoSep d1 = (Inr t, d)
                \<and> evs = [Load k1 p NoSep, Load TrialNdx p NoSep])"
proof -
  obtain r1 d1 where l1: "table_load C k1 p NoSep d0 = (r1, d1)"
    by (cases "table_load C k1 p NoSep d0")
  obtain r2 d2 where l2: "table_load C TrialNdx p NoSep d1 = (r2, d2)"
    by (cases "table_load C TrialNdx p NoSep d1")
  have lc: "loader_call Trials s = (k1, NoSep)"
    by (simp add: assms(1))
  from assms(2) l1 l2 show ?thesis
    unfolding group_load_def lc by (cases r1) simp_all
qed

section \<open>Materialization\<close>

text \<open>
  C5. For every group and every key whose slot holds a path reference: when the
  loading of the referenced path succeeds with a table, the first call of the
  accessor with \<^verbatim>\<open>keep_loaded=True\<close> returns this table, makes the calls of the loading
  (at least one, all of them loads of the referenced path) and no other, and leaves
  the table in the slot; a second call returns the same table and leaves the state as
  it is: the object, the disk and the trace, so that it makes no call at all.
\<close>

theorem keep_loaded_twice:
  assumes "getitem (slots g (self w)) key = Inr None"
      and "getitem (slot_paths g (self w)) key = Inr (Some p)"
      and "group_load C g (self w) p (disk w) = (Inr t, d, evs)"
  shows "\<exists>w1. accessor C g key True w = (Inr (Some t), w1)
           \<and> evs \<noteq> [] \<and> list_all (is_load_of p) evs
           \<and> trace w1 = trace w @ evs \<and> disk w1 = d
           \<and> getitem (slots g (self w1)) key = Inr (Some t)
           \<and> accessor C g key True w1 = (Inr (Some t), w1)"
proof (cases g)
  case Recordings
  with assms(3) group_load_simple [of g "self w" RecordingSet "Sep (table_sep (self w))" C p "disk w" t d evs]
  have "table_load C RecordingSet p (Sep (table_sep (self w))) (disk w) = (Inr t, d)"
    and evs: "evs = [Load RecordingSet p (Sep (table_sep (self w)))]"
    by simp_all
  with assms(1,2) Recordings recordings_value_keep [of w key p C t d] show ?thesis
    by (simp add: is_load_of_def)
next
  case Features
  with assms(3) group_load_simple [of g "self w" FeatureSet "Sep (table_sep (self w))" C p "disk w" t d evs]
  have "table_load C FeatureSet p (Sep (table_sep (self w))) (disk w) = (Inr t, d)"
    and evs: "evs = [Load FeatureSet p (Sep (table_sep (self w)))]"
    by simp_all
  with assms(1,2) Features features_value_keep [of w key p C t d] show ?thesis
    by (simp add: is_load_of_def)
next
  case Classes
  with assms(3) group_load_simple [of g "self w" ClassInfo "Sep (table_sep (self w))" C p "disk w" t d evs]
  have "table_load C ClassInfo p (Sep (table_sep (self w))) (disk w) = (Inr t, d)"
    and evs: "evs = [Load ClassInfo p (Sep (table_sep (self w)))]"
    by simp_all
  with assms(1,2) Classes classes_value_keep [of w key p C t d] show ?thesis
    by (simp add: is_load_of_def)
next
  case Enrollments
  with assms(3) group_load_simple [of g "self w" EnrollmentMap "Sep (table_sep (self w))" C p "disk w" t d evs]
  have "table_load C EnrollmentMap p (Sep (table_sep (self w))) (disk w) = (Inr t, d)"
    and evs: "evs = [Load EnrollmentMap p (Sep (table_sep (self w)))]"
    by simp_all
  with assms(1,2) Enrollments enrollments_value_keep [of w key p C t d] show ?thesis
    by (simp add: is_load_of_def)
next
  case Trials
  define k1 where "k1 = (if sparse_trials (self w) then SparseTrialKey else TrialKey)"
  from assms(1,2) Trials
  have s: "getitem (u_trials (self w)) key = Inr None"
    and q: "getitem (u_trials_paths (self w)) key = Inr (Some p)"
    by simp_all
  from assms(3) Trials have gl: "group_load C Trials (self w) p (disk w) = (Inr t, d, evs)"
    by simp
  from group_load_trials [OF k1_def gl]
  consider (first) "table_load C k1 p NoSep (disk w) = (Inr t, d)" "evs = [Load k1 p NoSep]"
    | (second) e1 d1 where "table_load C k1 p NoSep (disk w) = (Inl e1, d1)"
        "table_load C TrialNdx p NoSep d1 = (Inr t, d)"
        "evs = [Load k1 p NoSep, Load TrialNdx p NoSep]"
    by blast
  then show ?thesis
  proof cases
    case first
    with trials_value_keep_first [OF s q k1_def first(1)] Trials show ?thesis
      by (simp add: is_load_of_def)
  next
    case second
    with trials_value_keep_second [OF s q k1_def second(1) second(2)] Trials show ?thesis
      by (simp add: is_load_of_def)
  qed
qed

theorem keep_loaded_twice_witness:
  "getitem (slots Recordings (self ex_world)) ''rec'' = Inr None
   \<and> getitem (slot_paths Recordings (self ex_world)) ''rec'' = Inr (Some (PStr ''data/rec.csv''))
   \<and> group_load mem_collab Recordings (self ex_world) (PStr ''data/rec.csv'') (disk ex_world)
      = (Inr (Tbl RecordingSet 2), ex_disk, [Load RecordingSet (PStr ''data/rec.csv'') (Sep None)])
   \<and> fst (accessor mem_collab Recordings ''rec'' True ex_world) = Inr (Some (Tbl RecordingSet 2))
   \<and> trace (snd (accessor mem_collab Recordings ''rec'' True ex_world)) = [Load RecordingSet (PStr ''data/rec.csv'') (Sep None)]
   \<and> accessor mem_collab Recordings ''rec'' True (snd (accessor mem_collab Recordings ''rec'' True ex_world))
      = (Inr (Some (Tbl RecordingSet 2)), snd (accessor mem_collab Recordings ''rec'' True ex_world))
   \<and> getitem (slots Features (self ex_world)) ''mfcc'' = Inr None
   \<and> getitem (slot_paths Features (self ex_world)) ''mfcc'' = Inr (Some (PStr ''data/mfcc.csv''))
   \<and> group_load mem_collab Features (self ex_world) (PStr ''data/mfcc.csv'') (disk ex_world)
      = (Inr (Tbl FeatureSet 3), ex_disk, [Load FeatureSet (PStr ''data/mfcc.csv'') (Sep None)])
   \<and> fst (accessor mem_collab Features ''mfcc'' True ex_world) = Inr (Some (Tbl FeatureSet 3))
   \<and> trace (snd (accessor mem_collab Features ''mfcc'' True ex_world)) = [Load FeatureSet (PStr ''data/mfcc.csv'') (Sep None)]
   \<and> accessor mem_collab Features ''mfcc'' True (snd (accessor mem_collab Features ''mfcc'' True ex_world))
      = (Inr (Some (Tbl FeatureSet 3)), snd (accessor mem_collab Features ''mfcc'' True ex_world))
   \<and> getitem (slots Classes (self ex_world)) ''spk'' = Inr None
   \<and> getitem (slot_paths Classes (self ex_world)) ''spk'' = Inr (Some (PStr ''data/spk.csv''))
   \<and> group_load mem_collab Classes (self ex_world) (PStr ''data/spk.csv'') (disk ex_world)
      = (Inr (Tbl ClassInfo 4), ex_disk, [Load ClassInfo (PStr ''data/spk.csv'') (Sep None)])
   \<and> fst (accessor mem_collab Classes ''spk'' True ex_world) = Inr (Some (Tbl ClassInfo 4))
   \<and> trace (snd (accessor mem_collab Classes ''spk'' True ex_world)) = [Load ClassInfo (PStr ''data/spk.csv'') (Sep None)]
   \<and> accessor mem_collab Classes ''spk'' True (snd (accessor mem_collab Classes ''spk'' True ex_world))
      = (Inr (Some (Tbl ClassInfo 4)), snd (accessor mem_collab Classes ''spk'' True ex_world))
   \<and> getitem (slots Enrollments (self ex_world)) ''enr'' = Inr None
   \<and> getitem (slot_paths Enrollments (self ex_world)) ''enr'' = Inr (Some (PStr ''data/enr.csv''))
   \<and> group_load mem_collab Enrollments (self ex_world) (PStr ''data/enr.csv'') (disk ex_world)
      = (Inr (Tbl EnrollmentMap 5), ex_disk, [Load EnrollmentMap (PStr ''data/enr.csv'') (Sep None)])
   \<and> fst (accessor mem_collab Enrollments ''enr'' True ex_world) = Inr (Some (Tbl EnrollmentMap 5))
   \<and> trace (snd (accessor mem_collab Enrollments ''enr'' True ex_world)) = [Load EnrollmentMap (PStr ''data/enr.csv'') (Sep None)]
   \<and> accessor mem_collab Enrollments ''enr'' True (snd (accessor mem_collab Enrollments ''enr'' True ex_world))
      = (Inr (Some (Tbl EnrollmentMap 5)), snd (accessor mem_collab Enrollments ''enr'' True ex_world))
   \<and> getitem (slots Trials (self ex_world)) ''tr'' = Inr None
   \<and> getitem (slot_paths Trials (self ex_world)) ''tr'' = Inr (Some (PStr ''data/tr.csv''))
   \<and> group_load mem_collab Trials (self ex_world) (PStr ''data/tr.csv'') (disk ex_world)
      = (Inr (Tbl TrialNdx 6), ex_disk, [Load TrialKey (PStr ''data/tr.csv'') NoSep, Load TrialNdx (PStr ''data/tr.csv'') NoSep])
   \<and> fst (accessor mem_collab Trials ''tr'' True ex_world) = Inr (Some (Tbl TrialNdx 6))
   \<and> trace (snd (accessor mem_collab Trials ''tr'' True ex_world)) = [Load TrialKey (PStr ''data/tr.csv'') NoSep, Load TrialNdx (PStr ''data/tr.csv'') NoSep]
   \<and> accessor mem_collab Trials ''tr'' True (snd (accessor mem_collab Trials ''tr'' True ex_world))
      = (Inr (Some (Tbl TrialNdx 6)), snd (accessor mem_collab Trials ''tr'' True ex_world))"
proof -
  have rec1: "getitem (slots Recordings (self ex_world)) ''rec'' = Inr None"
    by code_simp
  have rec2: "getitem (slot_paths Recordings (self ex_world)) ''rec'' = Inr (Some (PStr ''data/rec.csv''))"
    by code_simp
  have rec3: "group_load mem_collab Recordings (self ex_world) (PStr ''data/rec.csv'') (disk ex_world)
      = (Inr (Tbl RecordingSet 2), ex_disk, [Load RecordingSet (PStr ''data/rec.csv'') (Sep None)])"
    by code_simp
  have rec0: "trace ex_world = []"
    by code_simp
  from keep_loaded_twice [OF rec1 rec2 rec3] rec0
  have rec4: "fst (accessor mem_collab Recordings ''rec'' True ex_world) = Inr (Some (Tbl RecordingSet 2))"
    and rec5: "trace (snd (accessor mem_collab Recordings ''rec'' True ex_world)) = [Load RecordingSet (PStr ''data/rec.csv'') (Sep None)]"
    and rec6: "accessor mem_collab Recordings ''rec'' True (snd (accessor mem_collab Recordings ''rec'' True ex_world))
      = (Inr (Some (Tbl RecordingSet 2)), snd (accessor mem_collab Recordings ''rec'' True ex_world))"
    by auto
  have fea1: "getitem (slots Features (self ex_world)) ''mfcc'' = Inr None"
    by code_simp
  have fea2: "getitem (slot_paths Features (self ex_world)) ''mfcc'' = Inr (Some (PStr ''data/mfcc.csv''))"
    by code_simp
  have fea3: "group_load mem_collab Features (self ex_world) (PStr ''data/mfcc.csv'') (disk ex_world)
      = (Inr (Tbl FeatureSet 3), ex_disk, [Load FeatureSet (PStr ''data/mfcc.csv'') (Sep None)])"
    by code_simp
  from keep_loaded_twice [OF fea1 fea2 fea3] rec0
  have fea4: "fst (accessor mem_collab Features ''mfcc'' True ex_world) = Inr (Some (Tbl FeatureSet 3))"
    and fea5: "trace (snd (accessor mem_collab Features ''mfcc'' True ex_world)) = [Load FeatureSet (PStr ''data/mfcc.csv'') (Sep None)]"
    and fea6: "accessor mem_collab Features ''mfcc'' True (snd (accessor mem_collab Features ''mfcc'' True ex_world))
      = (Inr (Some (Tbl FeatureSet 3)), snd (accessor mem_collab Features ''mfcc'' True ex_world))"
    by auto
  have cla1: "getitem (slots Classes (self ex_world)) ''spk'' = Inr None"
    by code_simp
  have cla2: "getitem (slot_paths Classes (self ex_world)) ''spk'' = Inr (Some (PStr ''data/spk.csv''))"
    by code_simp
  have cla3: "group_load mem_collab Classes (self ex_world) (PStr ''data/spk.csv'') (disk ex_world)
      = (Inr (Tbl ClassInfo 4), ex_disk, [Load ClassInfo (PStr ''data/spk.csv'') (Sep None)])"
    by code_simp
  from keep_loaded_twice [OF cla1 cla2 cla3] rec0
  have cla4: "fst (accessor mem_collab Classes ''spk'' True ex_world) = Inr (Some (Tbl ClassInfo 4))"
    and cla5: "trace (snd (accessor mem_collab Classes ''spk'' True ex_world)) = [Load ClassInfo (PStr ''data/spk.csv'') (Sep None)]"
    and cla6: "accessor mem_collab Classes ''spk'' True (snd (accessor mem_collab Classes ''spk'' True ex_world))
      = (Inr (Some (Tbl ClassInfo 4)), snd (accessor mem_collab Classes ''spk'' True ex_world))"
    by auto
  have enr1: "getitem (slots Enrollments (self ex_world)) ''enr'' = Inr None"
    by code_simp
  have enr2: "getitem (slot_paths Enrollments (self ex_world)) ''enr'' = Inr (Some (PStr ''data/enr.csv''))"
    by code_simp
  have enr3: "group_load mem_collab Enrollments (self ex_world) (PStr ''data/enr.csv'') (disk ex_world)
      = (Inr (Tbl EnrollmentMap 5), ex_disk, [Load EnrollmentMap (PStr ''data/enr.csv'') (Sep None)])"
    by code_simp
  from keep_loaded_twice [OF enr1 enr2 enr3] rec0
  have enr4: "fst (accessor mem_collab Enrollments ''enr'' True ex_world) = Inr (Some (Tbl EnrollmentMap 5))"
    and enr5: "trace (snd (accessor mem_collab Enrollments ''enr'' True ex_world)) = [Load EnrollmentMap (PStr ''data/enr.csv'') (Sep None)]"
    and enr6: "accessor mem_collab Enrollments ''enr'' True (snd (accessor mem_collab Enrollments ''enr'' True ex_world))
      = (Inr (Some (Tbl EnrollmentMap 5)), snd (accessor mem_collab Enrollments ''enr'' True ex_world))"
    by auto
  have tri1: "getitem (slots Trials (self ex_world)) ''tr'' = Inr None"
    by code_simp
  have tri2: "getitem (slot_paths Trials (self ex_world)) ''tr'' = Inr (Some (PStr ''data/tr.csv''))"
    by code_simp
  have tri3: "group_load mem_collab Trials (self ex_world) (PStr ''data/tr.csv'') (disk ex_world)
      = (Inr (Tbl TrialNdx 6), ex_disk, [Load TrialKey (PStr ''data/tr.csv'') NoSep, Load TrialNdx (PStr ''data/tr.csv'') NoSep])"
    by code_simp
  from keep_loaded_twice [OF tri1 tri2 tri3] rec0
  have tri4: "fst (accessor mem_collab Trials ''tr'' True ex_world) = Inr (Some (Tbl TrialNdx 6))"
    and tri5: "trace (snd (accessor mem_collab Trials ''tr'' True ex_world)) = [Load TrialKey (PStr ''data/tr.csv'') NoSep, Load TrialNdx (PStr ''data/tr.csv'') NoSep]"
    and tri6: "accessor mem_collab Trials ''tr'' True (snd (accessor mem_collab Trials ''tr'' True ex_world))
      = (Inr (Some (Tbl TrialNdx 6)), snd (accessor mem_collab Trials ''tr'' True ex_world))"
    by auto
  from rec1 rec2 rec3 rec4 rec5 rec6 fea1 fea2 fea3 fea4 fea5 fea6 cla1 cla2 cla3 cla4 cla5 cla6 enr1 enr2 enr3 enr4 enr5 enr6 tri1 tri2 tri3 tri4 tri5 tri6
  show ?thesis
    by blast
qed

section \<open>The kind of a trials table\<close>

text \<open>
  C3. When the slot of a trials key holds a path reference, \<^verbatim>\<open>trials_value\<close> calls
  \<^verbatim>\<open>SparseTrialKey.load\<close> on the path if \<^verbatim>\<open>sparse_trials\<close> is set and
  \<^verbatim>\<open>TrialKey.load\<close> otherwise. If that call returns a table, it is the only call. If
  it raises, whatever the exception, \<^verbatim>\<open>TrialNdx.load\<close> is called on the path, once,
  and these two are all the calls; an exception of this second call is the exception
  of \<^verbatim>\<open>trials_value\<close>. A table that was loaded is returned when \<^verbatim>\<open>keep_loaded\<close> is
  set.
\<close>

theorem trials_value_fallback:
  assumes "getitem (u_trials (self w)) key = Inr None"
      and "getitem (u_trials_paths (self w)) key = Inr (Some p)"
  shows "(let k1 = (if sparse_trials (self w) then SparseTrialKey else TrialKey);
              r = trials_value C key keep w
          in case table_load C k1 p NoSep (disk w) of
               (Inr t, d1) \<Rightarrow>
                 fst r = Inr (if keep then Some t else None)
                 \<and> trace (snd r) = trace w @ [Load k1 p NoSep]
             | (Inl e1, d1) \<Rightarrow>
                 trace (snd r) = trace w @ [Load k1 p NoSep, Load TrialNdx p NoSep]
                 \<and> fst r = (case table_load C TrialNdx p NoSep d1 of
                              (Inr t, d2) \<Rightarrow> Inr (if keep then Some t else None)
                            | (Inl e2, d2) \<Rightarrow> Inl e2))"
proof -
  from assms(1) obtain m where m: "u_trials (self w) = Some m" "map_of m key = Some None"
    by (blast dest: getitem_InrD)
  define k1 where "k1 = (if sparse_trials (self w) then SparseTrialKey else TrialKey)"
  obtain r1 d1 where l1: "table_load C k1 p NoSep (disk w) = (r1, d1)"
    by (cases "table_load C k1 p NoSep (disk w)")
  obtain r2 d2 where l2: "table_load C TrialNdx p NoSep d1 = (r2, d2)"
    by (cases "table_load C TrialNdx p NoSep d1")
  have "case table_load C k1 p NoSep (disk w) of
               (Inr t, d1) \<Rightarrow>
                 fst (trials_value C key keep w) = Inr (if keep then Some t else None)
                 \<and> trace (snd (trials_value C key keep w)) = trace w @ [Load k1 p NoSep]
             | (Inl e1, d1) \<Rightarrow>
                 trace (snd (trials_value C key keep w))
                   = trace w @ [Load k1 p NoSep, Load TrialNdx p NoSep]
                 \<and> fst (trials_value C key keep w)
                   = (case table_load C TrialNdx p NoSep d1 of
                        (Inr t, d2) \<Rightarrow> Inr (if keep then Some t else None)
                      | (Inl e2, d2) \<Rightarrow> Inl e2)"
  proof (cases r1)
    case (Inr t)
    with trials_value_first_ok [OF m assms(2) k1_def, of C t d1 keep] l1
    show ?thesis by simp
  next
    case e1: (Inl e1)
    show ?thesis
    proof (cases r2)
      case (Inr t)
      with trials_value_second_ok [OF m assms(2) k1_def, of C e1 d1 t d2 keep] l1 l2 e1
      show ?thesis by simp
    next
      case (Inl e2)
      with trials_value_second_err [OF m assms(2) k1_def, of C e1 d1 e2 d2 keep] l1 l2 e1
      show ?thesis by simp
    qed
  qed
  then show ?thesis
    unfolding k1_def Let_def .
qed

theorem trials_value_fallback_witness:
  "getitem (u_trials (self ex_world)) ''tr'' = Inr None
   \<and> getitem (u_trials_paths (self ex_world)) ''tr'' = Inr (Some (PStr ''data/tr.csv''))
   \<and> fst (table_load mem_collab TrialKey (PStr ''data/tr.csv'') NoSep (disk ex_world))
       = Inl (FormatError ''wrong table kind'')
   \<and> fst (trials_value mem_collab ''tr'' True ex_world) = Inr (Some (Tbl TrialNdx 6))
   \<and> trace (snd (trials_value mem_collab ''tr'' True ex_world))
       = [Load TrialKey (PStr ''data/tr.csv'') NoSep, Load TrialNdx (PStr ''data/tr.csv'') NoSep]"
proof -
  have h1: "getitem (u_trials (self ex_world)) ''tr'' = Inr None"
    by code_simp
  have h2: "getitem (u_trials_paths (self ex_world)) ''tr'' = Inr (Some (PStr ''data/tr.csv''))"
    by code_simp
  have h3: "fst (table_load mem_collab TrialKey (PStr ''data/tr.csv'') NoSep (disk ex_world))
       = Inl (FormatError ''wrong table kind'')"
    by code_simp
  have h4: "fst (trials_value mem_collab ''tr'' True ex_world) = Inr (Some (Tbl TrialNdx 6))"
    by code_simp
  have h5: "trace (snd (trials_value mem_collab ''tr'' True ex_world))
       = [Load TrialKey (PStr ''data/tr.csv'') NoSep, Load TrialNdx (PStr ''data/tr.csv'') NoSep]"
    by code_simp
  from trials_value_fallback [OF h1 h2, of mem_collab True] h1 h2 h3 h4 h5 show ?thesis
    by blast
qed

section \<open>Rules for steady statements\<close>

lemma all_grp:
  "(\<forall>g. P g) = (P Recordings \<and> P Features \<and> P Classes \<and> P Enrollments \<and> P Trials)"
  by (metis grp.exhaust)

lemma kept_refl: "kept up s s"
  by (simp add: kept_def)

lemma steadyI:
  fixes m :: "(('t, 'd) world, 'a) sx"
  assumes "\<And>w :: ('t, 'd) world. Q (self w) \<Longrightarrow>
             Q (self (snd (m w))) \<and> (\<exists>evs. trace (snd (m w)) = trace w @ evs \<and> list_all P evs)"
  shows "steady Q P m"
  using assms by (simp add: steady_def)

lemma steadyD:
  fixes m :: "(('t, 'd) world, 'a) sx"
  assumes "steady Q P m" "Q (self w)"
  shows "Q (self (snd (m w))) \<and> (\<exists>evs. trace (snd (m w)) = trace w @ evs \<and> list_all P evs)"
  using assms by (simp add: steady_def)

lemma st_ret: "steady Q P (ret a)"
  by (simp add: steady_def)

lemma st_throw: "steady Q P (throw e)"
  by (simp add: steady_def)

lemma st_lift: "steady Q P (lift r)"
  by (simp add: steady_def)

lemma st_self_get: "steady Q P (self_get g)"
  by (simp add: steady_def)

lemma st_seq:
  fixes m :: "(('t, 'd) world, 'a) sx" and f :: "'a \<Rightarrow> (('t, 'd) world, 'b) sx"
  assumes "steady Q P m" and "\<And>a. steady Q P (f a)"
  shows "steady Q P (seq m f)"
proof (rule steadyI)
  fix w :: "('t, 'd) world"
  assume q: "Q (self w)"
  obtain r w1 where mw: "m w = (r, w1)"
    by (cases "m w")
  from steadyD [OF assms(1) q] mw
  obtain evs1 where q1: "Q (self w1)" and t1: "trace w1 = trace w @ evs1" "list_all P evs1"
    by auto
  show "Q (self (snd (seq m f w)))
        \<and> (\<exists>evs. trace (snd (seq m f w)) = trace w @ evs \<and> list_all P evs)"
  proof (cases r)
    case (Inl e)
    with mw q1 t1 show ?thesis by auto
  next
    case (Inr a)
    from steadyD [OF assms(2) q1, of a]
    obtain evs2 where q2: "Q (self (snd (f a w1)))"
      and t2: "trace (snd (f a w1)) = trace w1 @ evs2" "list_all P evs2"
      by auto
    from Inr mw have "seq m f w = f a w1" by simp
    with q2 t1 t2 show ?thesis by auto
  qed
qed

lemma st_get:
  fixes f :: "'a \<Rightarrow> (('t, 'd) world, 'b) sx"
  assumes "\<And>a s. Q s \<Longrightarrow> g s = Inr a \<Longrightarrow> steady Q P (f a)"
  shows "steady Q P (seq (self_get g) f)"
proof (rule steadyI)
  fix w :: "('t, 'd) world"
  assume q: "Q (self w)"
  show "Q (self (snd (seq (self_get g) f w)))
        \<and> (\<exists>evs. trace (snd (seq (self_get g) f w)) = trace w @ evs \<and> list_all P evs)"
  proof (cases "g (self w)")
    case (Inl e)
    with q show ?thesis by simp
  next
    case (Inr a)
    with q steadyD [OF assms [OF q Inr] q] show ?thesis by simp
  qed
qed

lemma st_try:
  fixes m :: "(('t, 'd) world, 'a) sx"
  assumes "steady Q P m" and "steady Q P h"
  shows "steady Q P (try_except m h)"
proof (rule steadyI)
  fix w :: "('t, 'd) world"
  assume q: "Q (self w)"
  obtain r w1 where mw: "m w = (r, w1)"
    by (cases "m w")
  from steadyD [OF assms(1) q] mw
  obtain evs1 where q1: "Q (self w1)" and t1: "trace w1 = trace w @ evs1" "list_all P evs1"
    by auto
  show "Q (self (snd (try_except m h w)))
        \<and> (\<exists>evs. trace (snd (try_except m h w)) = trace w @ evs \<and> list_all P evs)"
  proof (cases r)
    case (Inr a)
    with mw q1 t1 show ?thesis by auto
  next
    case (Inl e)
    from steadyD [OF assms(2) q1]
    obtain evs2 where q2: "Q (self (snd (h w1)))"
      and t2: "trace (snd (h w1)) = trace w1 @ evs2" "list_all P evs2"
      by auto
    from Inl mw have "try_except m h w = h w1" by simp
    with q2 t1 t2 show ?thesis by auto
  qed
qed

lemma st_for_each:
  fixes body :: "'k \<Rightarrow> 'a \<Rightarrow> (('t, 'd) world, 'a) sx"
  assumes "\<And>k a. steady Q P (body k a)"
  shows "steady Q P (for_each ks body acc)"
proof (induction ks arbitrary: acc)
  case Nil
  show ?case unfolding for_each.simps by (rule st_ret)
next
  case (Cons k ks)
  show ?case unfolding for_each.simps by (rule st_seq [OF assms]) (rule Cons.IH)
qed

lemma st_set:
  assumes "\<And>s s1. Q s \<Longrightarrow> f s = Inr s1 \<Longrightarrow> Q s1"
  shows "steady Q P (self_set f)"
proof (rule steadyI)
  fix w :: "('a, 'b) world"
  assume q: "Q (self w)"
  show "Q (self (snd (self_set f w)))
        \<and> (\<exists>evs. trace (snd (self_set f w)) = trace w @ evs \<and> list_all P evs)"
    using q assms [OF q] by (cases "f (self w)") simp_all
qed

lemma st_load:
  assumes "P (Load k p sa)"
  shows "steady Q P (io_load C k p sa)"
proof (rule steadyI)
  fix w :: "('a, 'b) world"
  assume q: "Q (self w)"
  show "Q (self (snd (io_load C k p sa w)))
        \<and> (\<exists>evs. trace (snd (io_load C k p sa w)) = trace w @ evs \<and> list_all P evs)"
    using q assms by (simp add: io_load_def split: prod.splits)
qed

lemma st_save:
  assumes "\<And>t. v = Some t \<Longrightarrow> P (Save t p sa)"
  shows "steady Q P (io_save C v p sa)"
proof (rule steadyI)
  fix w :: "('a, 'b) world"
  assume q: "Q (self w)"
  show "Q (self (snd (io_save C v p sa w)))
        \<and> (\<exists>evs. trace (snd (io_save C v p sa w)) = trace w @ evs \<and> list_all P evs)"
    using q assms by (cases v) (simp_all add: io_save_def split: prod.splits)
qed

lemma st_open:
  assumes "P (Open p m)"
  shows "steady Q P (io_open C p m)"
proof (rule steadyI)
  fix w :: "('a, 'b) world"
  assume q: "Q (self w)"
  show "Q (self (snd (io_open C p m w)))
        \<and> (\<exists>evs. trace (snd (io_open C p m w)) = trace w @ evs \<and> list_all P evs)"
    using q assms by (simp add: io_open_def split: prod.splits)
qed

lemma st_dump:
  assumes "\<And>p. P (Dump p doc)"
  shows "steady Q P (yaml_dump C doc f)"
proof (rule steadyI)
  fix w :: "('a, 'b) world"
  assume q: "Q (self w)"
  obtain p m where f: "f = Handle p m"
    by (cases f)
  show "Q (self (snd (yaml_dump C doc f w)))
        \<and> (\<exists>evs. trace (snd (yaml_dump C doc f w)) = trace w @ evs \<and> list_all P evs)"
    using q assms f by (cases m) (simp_all add: yaml_dump_def split: prod.splits)
qed

lemma st2_second:
  fixes m :: "(('t, 'd) world, 'a) sx"
  assumes "steady Q P2 m"
  shows "steady2 Q P1 P2 m"
  unfolding steady2_def
proof (intro allI impI)
  fix w :: "('t, 'd) world"
  assume q: "Q (self w)"
  from steadyD [OF assms q]
  obtain evs where q1: "Q (self (snd (m w)))"
    and "trace (snd (m w)) = trace w @ evs" "list_all P2 evs"
    by auto
  then have "trace (snd (m w)) = trace w @ [] @ evs \<and> list_all P1 [] \<and> list_all P2 evs"
    by simp
  with q1 show "Q (self (snd (m w)))
        \<and> (\<exists>evs1 evs2. trace (snd (m w)) = trace w @ evs1 @ evs2
              \<and> list_all P1 evs1 \<and> list_all P2 evs2)"
    by blast
qed

lemma st2_first:
  fixes m :: "(('t, 'd) world, 'a) sx" and f :: "'a \<Rightarrow> (('t, 'd) world, 'b) sx"
  assumes "steady Q P1 m" and "\<And>a. steady2 Q P1 P2 (f a)"
  shows "steady2 Q P1 P2 (seq m f)"
  unfolding steady2_def
proof (intro allI impI)
  fix w :: "('t, 'd) world"
  assume q: "Q (self w)"
  obtain r w1 where mw: "m w = (r, w1)"
    by (cases "m w")
  from steadyD [OF assms(1) q] mw
  obtain evs where q1: "Q (self w1)" and t1: "trace w1 = trace w @ evs" "list_all P1 evs"
    by auto
  show "Q (self (snd (seq m f w)))
        \<and> (\<exists>evs1 evs2. trace (snd (seq m f w)) = trace w @ evs1 @ evs2
              \<and> list_all P1 evs1 \<and> list_all P2 evs2)"
  proof (cases r)
    case (Inl e)
    with mw have sq: "seq m f w = (Inl e, w1)" by simp
    from t1 have "trace w1 = trace w @ evs @ [] \<and> list_all P1 evs \<and> list_all P2 []"
      by simp
    with q1 show ?thesis
      unfolding sq snd_conv by blast
  next
    case (Inr a)
    from assms(2) [of a] q1
    obtain e1 e2 where q2: "Q (self (snd (f a w1)))"
      and t2: "trace (snd (f a w1)) = trace w1 @ e1 @ e2" "list_all P1 e1" "list_all P2 e2"
      unfolding steady2_def by blast
    from Inr mw have sq: "seq m f w = f a w1" by simp
    from t1 t2 have "trace (snd (f a w1)) = trace w @ (evs @ e1) @ e2"
      and "list_all P1 (evs @ e1)"
      by simp_all
    with q2 t2(3) show ?thesis
      unfolding sq by blast
  qed
qed

section \<open>What the accessors, the iterators and save keep\<close>

lemma kept_sep: "kept up s0 s \<Longrightarrow> table_sep s = table_sep s0"
  by (simp add: kept_def)

lemma kept_u_segments: "kept up s0 s \<Longrightarrow> kept up s0 (s\<lparr>u_segments := x\<rparr>)"
  by (simp add: kept_def all_grp)

lemma kept_u_segments_path: "kept True s0 s \<Longrightarrow> kept True s0 (s\<lparr>u_segments_path := x\<rparr>)"
  by (simp add: kept_def all_grp)

lemma setitem_keys:
  assumes "getitem d' k = Inr a" and "map_option (map fst) d = map_option (map fst) d'"
      and "setitem d k v = Inr d1"
  shows "map_option (map fst) d1 = map_option (map fst) d"
proof -
  from assms(1) obtain m' where m': "d' = Some m'" "map_of m' k = Some a"
    by (blast dest: getitem_InrD)
  with assms(2) obtain m where m: "d = Some m" "map fst m = map fst m'"
    by (cases d) auto
  from m' have "k \<in> set (map fst m')"
    by (metis domI dom_map_of_conv_image_fst set_map)
  with m have "k \<in> set (map fst m)"
    by simp
  then have "map fst (AList.update k v m) = map fst m"
    by (simp add: update_keys)
  with m assms(3) show ?thesis
    by (auto simp: setitem_def)
qed

lemma kept_set_recordings:
  assumes "kept up s0 s'" "getitem (u_recordings s') key = Inr a" "kept up s0 s"
      and "map_sum id (\<lambda>d. s\<lparr>u_recordings := d\<rparr>) (setitem (u_recordings s) key v) = Inr s1"
  shows "kept up s0 s1"
proof -
  from assms(4) obtain d1 where d1: "setitem (u_recordings s) key v = Inr d1"
    and s1: "s1 = s\<lparr>u_recordings := d1\<rparr>"
    by (cases "setitem (u_recordings s) key v") auto
  from assms(1,3) have "map_option (map fst) (u_recordings s) = map_option (map fst) (u_recordings s')"
    by (simp add: kept_def all_grp)
  from setitem_keys [OF assms(2) this d1] assms(3) show ?thesis
    by (simp add: s1 kept_def all_grp)
qed

lemma kept_set_recordings_paths:
  assumes "kept True s0 s"
      and "map_sum id (\<lambda>d. s\<lparr>u_recordings_paths := d\<rparr>) (setitem (u_recordings_paths s) key v) = Inr s1"
  shows "kept True s0 s1"
proof -
  from assms(2) obtain d1 where s1: "s1 = s\<lparr>u_recordings_paths := d1\<rparr>"
    by (cases "setitem (u_recordings_paths s) key v") auto
  with assms(1) show ?thesis
    by (simp add: kept_def all_grp)
qed

lemma segments_steady:
  assumes "\<And>p. P (Load SegmentSet p (Sep (table_sep s0)))"
  shows "steady (kept up s0) P (segments C keep)"
  unfolding segments_def
proof (rule st_get)
  fix cur :: "'a option" and s :: "'a dataset"
  show "steady (kept up s0) P
         (case cur of
            None \<Rightarrow>
              seq (self_get (\<lambda>s. if u_segments_path s = None then Inl AssertionError else Inr ()))
                (\<lambda>_. seq (self_get (getattr ''segments_path''))
                  (\<lambda>a. seq (lift (as_pathlike a))
                    (\<lambda>p. seq (self_get (\<lambda>s. Inr (table_sep s)))
                      (\<lambda>sep. seq (io_load C SegmentSet p (Sep sep))
                        (\<lambda>segments. seq (if keep
                                          then self_set (\<lambda>s. Inr (s\<lparr>u_segments := Some segments\<rparr>))
                                          else ret ())
                          (\<lambda>_. ret segments))))))
          | Some t \<Rightarrow> ret t)"
  proof (cases cur)
    case (Some t)
    then show ?thesis by (simp add: st_ret)
  next
    case None
    have "steady (kept up s0) P
           (seq (self_get (\<lambda>s. if u_segments_path s = None then Inl AssertionError else Inr ()))
                (\<lambda>_. seq (self_get (getattr ''segments_path''))
                  (\<lambda>a. seq (lift (as_pathlike a))
                    (\<lambda>p. seq (self_get (\<lambda>s. Inr (table_sep s)))
                      (\<lambda>sep. seq (io_load C SegmentSet p (Sep sep))
                        (\<lambda>segments. seq (if keep
                                          then self_set (\<lambda>s. Inr (s\<lparr>u_segments := Some segments\<rparr>))
                                          else ret ())
                          (\<lambda>_. ret segments)))))))"
    proof (intro st_get st_seq st_lift st_ret)
      fix sep :: "string option" and s1 :: "'a dataset" and p
      assume "kept up s0 s1" "Inr (table_sep s1) = Inr sep"
      then have "sep = table_sep s0"
        by (simp add: kept_def)
      with assms show "steady (kept up s0) P (io_load C SegmentSet p (Sep sep))"
        by (simp add: st_load)
    next
      fix segments :: 'a
      show "steady (kept up s0) P
              (if keep then self_set (\<lambda>s. Inr (s\<lparr>u_segments := Some segments\<rparr>)) else ret ())"
        by (auto intro!: st_set st_ret kept_u_segments)
    qed
    with None show ?thesis by simp
  qed
qed

lemma recordings_value_steady:
  assumes "\<And>p. P (Load RecordingSet p (Sep (table_sep s0)))"
  shows "steady (kept up s0) P (recordings_value C key keep)"
  unfolding recordings_value_def
proof (rule st_get)
  fix cur :: "'a option" and s :: "'a dataset"
  assume s: "kept up s0 s" "getitem (u_recordings s) key = Inr cur"
  have "steady (kept up s0) P
          (seq (self_get (\<lambda>s. getitem (u_recordings_paths s) key)) (\<lambda>path.
              case path of
                None \<Rightarrow> throw AssertionError
              | Some p \<Rightarrow>
                  seq (self_get (\<lambda>s. Inr (table_sep s))) (\<lambda>sep.
                  seq (io_load C RecordingSet p (Sep sep)) (\<lambda>recordings.
                  if keep
                  then self_set (\<lambda>s. map_sum id (\<lambda>d. s\<lparr>u_recordings := d\<rparr>)
                                        (setitem (u_recordings s) key (Some recordings)))
                  else ret ()))))"
  proof (rule st_get)
    fix path :: "pathlike option" and s1 :: "'a dataset"
    show "steady (kept up s0) P
            (case path of
                None \<Rightarrow> throw AssertionError
              | Some p \<Rightarrow>
                  seq (self_get (\<lambda>s. Inr (table_sep s))) (\<lambda>sep.
                  seq (io_load C RecordingSet p (Sep sep)) (\<lambda>recordings.
                  if keep
                  then self_set (\<lambda>s. map_sum id (\<lambda>d. s\<lparr>u_recordings := d\<rparr>)
                                        (setitem (u_recordings s) key (Some recordings)))
                  else ret ())))"
    proof (cases path)
      case None
      then show ?thesis by (simp add: st_throw)
    next
      case (Some p)
      have "steady (kept up s0) P
              (seq (self_get (\<lambda>s. Inr (table_sep s))) (\<lambda>sep.
                  seq (io_load C RecordingSet p (Sep sep)) (\<lambda>recordings.
                  if keep
                  then self_set (\<lambda>s. map_sum id (\<lambda>d. s\<lparr>u_recordings := d\<rparr>)
                                        (setitem (u_recordings s) key (Some recordings)))
                  else ret ())))"
      proof (intro st_get st_seq)
        fix sep :: "string option" and s2 :: "'a dataset"
        assume "kept up s0 s2" "Inr (table_sep s2) = Inr sep"
        then have "sep = table_sep s0"
          by (simp add: kept_def)
        with assms show "steady (kept up s0) P (io_load C RecordingSet p (Sep sep))"
          by (simp add: st_load)
      next
        fix recordings :: 'a
        show "steady (kept up s0) P
                (if keep
                 then self_set (\<lambda>s. map_sum id (\<lambda>d. s\<lparr>u_recordings := d\<rparr>)
                                        (setitem (u_recordings s) key (Some recordings)))
                 else ret ())"
          using s by (auto intro!: st_set st_ret elim: kept_set_recordings)
      qed
      with Some show ?thesis by simp
    qed
  qed
  then show "steady (kept up s0) P
          (seq (if cur = None
                then
                  seq (self_get (\<lambda>s. getitem (u_recordings_paths s) key)) (\<lambda>path.
                    case path of
                      None \<Rightarrow> throw AssertionError
                    | Some p \<Rightarrow>
                        seq (self_get (\<lambda>s. Inr (table_sep s))) (\<lambda>sep.
                        seq (io_load C RecordingSet p (Sep sep)) (\<lambda>recordings.
                        if keep
                        then self_set (\<lambda>s. map_sum id (\<lambda>d. s\<lparr>u_recordings := d\<rparr>)
                                              (setitem (u_recordings s) key (Some recordings)))
                        else ret ())))
                else ret ()) (\<lambda>_.
           self_get (\<lambda>s. getitem (u_recordings s) key)))"
    by (intro st_seq st_self_get) (simp add: st_ret)
qed

lemma kept_set_features:
  assumes "kept up s0 s'" "getitem (u_features s') key = Inr a" "kept up s0 s"
      and "map_sum id (\<lambda>d. s\<lparr>u_features := d\<rparr>) (setitem (u_features s) key v) = Inr s1"
  shows "kept up s0 s1"
proof -
  from assms(4) obtain d1 where d1: "setitem (u_features s) key v = Inr d1"
    and s1: "s1 = s\<lparr>u_features := d1\<rparr>"
    by (cases "setitem (u_features s) key v") auto
  from assms(1,3) have "map_option (map fst) (u_features s) = map_option (map fst) (u_features s')"
    by (simp add: kept_def all_grp)
  from setitem_keys [OF assms(2) this d1] assms(3) show ?thesis
    by (simp add: s1 kept_def all_grp)
qed

lemma kept_set_features_paths:
  assumes "kept True s0 s"
      and "map_sum id (\<lambda>d. s\<lparr>u_features_paths := d\<rparr>) (setitem (u_features_paths s) key v) = Inr s1"
  shows "kept True s0 s1"
proof -
  from assms(2) obtain d1 where s1: "s1 = s\<lparr>u_features_paths := d1\<rparr>"
    by (cases "setitem (u_features_paths s) key v") auto
  with assms(1) show ?thesis
    by (simp add: kept_def all_grp)
qed

lemma features_value_steady:
  assumes "\<And>p. P (Load FeatureSet p (Sep (table_sep s0)))"
  shows "steady (kept up s0) P (features_value C key keep)"
  unfolding features_value_def
proof (rule st_get)
  fix cur :: "'a option" and s :: "'a dataset"
  assume s: "kept up s0 s" "getitem (u_features s) key = Inr cur"
  have "steady (kept up s0) P
          (seq (self_get (\<lambda>s. getitem (u_features_paths s) key)) (\<lambda>path.
              case path of
                None \<Rightarrow> throw AssertionError
              | Some p \<Rightarrow>
                  seq (self_get (\<lambda>s. Inr (table_sep s))) (\<lambda>sep.
                  seq (io_load C FeatureSet p (Sep sep)) (\<lambda>features.
                  if keep
                  then self_set (\<lambda>s. map_sum id (\<lambda>d. s\<lparr>u_features := d\<rparr>)
                                        (setitem (u_features s) key (Some features)))
                  else ret ()))))"
  proof (rule st_get)
    fix path :: "pathlike option" and s1 :: "'a dataset"
    show "steady (kept up s0) P
            (case path of
                None \<Rightarrow> throw AssertionError
              | Some p \<Rightarrow>
                  seq (self_get (\<lambda>s. Inr (table_sep s))) (\<lambda>sep.
                  seq (io_load C FeatureSet p (Sep sep)) (\<lambda>features.
                  if keep
                  then self_set (\<lambda>s. map_sum id (\<lambda>d. s\<lparr>u_features := d\<rparr>)
                                        (setitem (u_features s) key (Some features)))
                  else ret ())))"
    proof (cases path)
      case None
      then show ?thesis by (simp add: st_throw)
    next
      case (Some p)
      have "steady (kept up s0) P
              (seq (self_get (\<lambda>s. Inr (table_sep s))) (\<lambda>sep.
                  seq (io_load C FeatureSet p (Sep sep)) (\<lambda>features.
                  if keep
                  then self_set (\<lambda>s. map_sum id (\<lambda>d. s\<lparr>u_features := d\<rparr>)
                                        (setitem (u_features s) key (Some features)))
                  else ret ())))"
      proof (intro st_get st_seq)
        fix sep :: "string option" and s2 :: "'a dataset"
        assume "kept up s0 s2" "Inr (table_sep s2) = Inr sep"
        then have "sep = table_sep s0"
          by (simp add: kept_def)
        with assms show "steady (kept up s0) P (io_load C FeatureSet p (Sep sep))"
          by (simp add: st_load)
      next
        fix features :: 'a
        show "steady (kept up s0) P
                (if keep
                 then self_set (\<lambda>s. map_sum id (\<lambda>d. s\<lparr>u_features := d\<rparr>)
                                        (setitem (u_features s) key (Some features)))
                 else ret ())"
          using s by (auto intro!: st_set st_ret elim: kept_set_features)
      qed
      with Some show ?thesis by simp
    qed
  qed
  then show "steady (kept up s0) P
          (seq (if cur = None
                then
                  seq (self_get (\<lambda>s. getitem (u_features_paths s) key)) (\<lambda>path.
                    case path of
                      None \<Rightarrow> throw AssertionError
                    | Some p \<Rightarrow>
                        seq (self_get (\<lambda>s. Inr (table_sep s))) (\<lambda>sep.
                        seq (io_load C FeatureSet p (Sep sep)) (\<lambda>features.
                        if keep
                        then self_set (\<lambda>s. map_sum id (\<lambda>d. s\<lparr>u_features := d\<rparr>)
                                              (setitem (u_features s) key (Some features)))
                        else ret ())))
                else ret ()) (\<lambda>_.
           self_get (\<lambda>s. getitem (u_features s) key)))"
    by (intro st_seq st_self_get) (simp add: st_ret)
qed

lemma kept_set_classes:
  assumes "kept up s0 s'" "getitem (u_classes s') key = Inr a" "kept up s0 s"
      and "map_sum id (\<lambda>d. s\<lparr>u_classes := d\<rparr>) (setitem (u_classes s) key v) = Inr s1"
  shows "kept up s0 s1"
proof -
  from assms(4) obtain d1 where d1: "setitem (u_classes s) key v = Inr d1"
    and s1: "s1 = s\<lparr>u_classes := d1\<rparr>"
    by (cases "setitem (u_classes s) key v") auto
  from assms(1,3) have "map_option (map fst) (u_classes s) = map_option (map fst) (u_classes s')"
    by (simp add: kept_def all_grp)
  from setitem_keys [OF assms(2) this d1] assms(3) show ?thesis
    by (simp add: s1 kept_def all_grp)
qed

lemma kept_set_classes_paths:
  assumes "kept True s0 s"
      and "map_sum id (\<lambda>d. s\<lparr>u_classes_paths := d\<rparr>) (setitem (u_classes_paths s) key v) = Inr s1"
  shows "kept True s0 s1"
proof -
  from assms(2) obtain d1 where s1: "s1 = s\<lparr>u_classes_paths := d1\<rparr>"
    by (cases "setitem (u_classes_paths s) key v") auto
  with assms(1) show ?thesis
    by (simp add: kept_def all_grp)
qed

lemma classes_value_steady:
  assumes "\<And>p. P (Load ClassInfo p (Sep (table_sep s0)))"
  shows "steady (kept up s0) P (classes_value C key keep)"
  unfolding classes_value_def
proof (rule st_get)
  fix cur :: "'a option" and s :: "'a dataset"
  assume s: "kept up s0 s" "getitem (u_classes s) key = Inr cur"
  have "steady (kept up s0) P
          (seq (self_get (\<lambda>s. getitem (u_classes_paths s) key)) (\<lambda>path.
              case path of
                None \<Rightarrow> throw AssertionError
              | Some p \<Rightarrow>
                  seq (self_get (\<lambda>s. Inr (table_sep s))) (\<lambda>sep.
                  seq (io_load C ClassInfo p (Sep sep)) (\<lambda>classes.
                  if keep
                  then self_set (\<lambda>s. map_sum id (\<lambda>d. s\<lparr>u_classes := d\<rparr>)
                                        (setitem (u_classes s) key (Some classes)))
                  else ret ()))))"
  proof (rule st_get)
    fix path :: "pathlike option" and s1 :: "'a dataset"
    show "steady (kept up s0) P
            (case path of
                None \<Rightarrow> throw AssertionError
              | Some p \<Rightarrow>
                  seq (self_get (\<lambda>s. Inr (table_sep s))) (\<lambda>sep.
                  seq (io_load C ClassInfo p (Sep sep)) (\<lambda>classes.
                  if keep
                  then self_set (\<lambda>s. map_sum id (\<lambda>d. s\<lparr>u_classes := d\<rparr>)
                                        (setitem (u_classes s) key (Some classes)))
                  else ret ())))"
    proof (cases path)
      case None
      then show ?thesis by (simp add: st_throw)
    next
      case (Some p)
      have "steady (kept up s0) P
              (seq (self_get (\<lambda>s. Inr (table_sep s))) (\<lambda>sep.
                  seq (io_load C ClassInfo p (Sep sep)) (\<lambda>classes.
                  if keep
                  then self_set (\<lambda>s. map_sum id (\<lambda>d. s\<lparr>u_classes := d\<rparr>)
                                        (setitem (u_classes s) key (Some classes)))
                  else ret ())))"
      proof (intro st_get st_seq)
        fix sep :: "string option" and s2 :: "'a dataset"
        assume "kept up s0 s2" "Inr (table_sep s2) = Inr sep"
        then have "sep = table_sep s0"
          by (simp add: kept_def)
        with assms show "steady (kept up s0) P (io_load C ClassInfo p (Sep sep))"
          by (simp add: st_load)
      next
        fix classes :: 'a
        show "steady (kept up s0) P
                (if keep
                 then self_set (\<lambda>s. map_sum id (\<lambda>d. s\<lparr>u_classes := d\<rparr>)
                                        (setitem (u_classes s) key (Some classes)))
                 else ret ())"
          using s by (auto intro!: st_set st_ret elim: kept_set_classes)
      qed
      with Some show ?thesis by simp
    qed
  qed
  then show "steady (kept up s0) P
          (seq (if cur = None
                then
                  seq (self_get (\<lambda>s. getitem (u_classes_paths s) key)) (\<lambda>path.
                    case path of
                      None \<Rightarrow> throw AssertionError
                    | Some p \<Rightarrow>
                        seq (self_get (\<lambda>s. Inr (table_sep s))) (\<lambda>sep.
                        seq (io_load C ClassInfo p (Sep sep)) (\<lambda>classes.
                        if keep
                        then self_set (\<lambda>s. map_sum id (\<lambda>d. s\<lparr>u_classes := d\<rparr>)
                                              (setitem (u_classes s) key (Some classes)))
                        else ret ())))
                else ret ()) (\<lambda>_.
           self_get (\<lambda>s. getitem (u_classes s) key)))"
    by (intro st_seq st_self_get) (simp add: st_ret)
qed

lemma kept_set_enrollments:
  assumes "kept up s0 s'" "getitem (u_enrollments s') key = Inr a" "kept up s0 s"
      and "map_sum id (\<lambda>d. s\<lparr>u_enrollments := d\<rparr>) (setitem (u_enrollments s) key v) = Inr s1"
  shows "kept up s0 s1"
proof -
  from assms(4) obtain d1 where d1: "setitem (u_enrollments s) key v = Inr d1"
    and s1: "s1 = s\<lparr>u_enrollments := d1\<rparr>"
    by (cases "setitem (u_enrollments s) key v") auto
  from assms(1,3) have "map_option (map fst) (u_enrollments s) = map_option (map fst) (u_enrollments s')"
    by (simp add: kept_def all_grp)
  from setitem_keys [OF assms(2) this d1] assms(3) show ?thesis
    by (simp add: s1 kept_def all_grp)
qed

lemma kept_set_enrollments_paths:
  assumes "kept True s0 s"
      and "map_sum id (\<lambda>d. s\<lparr>u_enrollments_paths := d\<rparr>) (setitem (u_enrollments_paths s) key v) = Inr s1"
  shows "kept True s0 s1"
proof -
  from assms(2) obtain d1 where s1: "s1 = s\<lparr>u_enrollments_paths := d1\<rparr>"
    by (cases "setitem (u_enrollments_paths s) key v") auto
  with assms(1) show ?thesis
    by (simp add: kept_def all_grp)
qed

lemma enrollments_value_steady:
  assumes "\<And>p. P (Load EnrollmentMap p (Sep (table_sep s0)))"
  shows "steady (kept up s0) P (enrollments_value C key keep)"
  unfolding enrollments_value_def
proof (rule st_get)
  fix cur :: "'a option" and s :: "'a dataset"
  assume s: "kept up s0 s" "getitem (u_enrollments s) key = Inr cur"
  have "steady (kept up s0) P
          (seq (self_get (\<lambda>s. getitem (u_enrollments_paths s) key)) (\<lambda>path.
              case path of
                None \<Rightarrow> throw AssertionError
              | Some p \<Rightarrow>
                  seq (self_get (\<lambda>s. Inr (table_sep s))) (\<lambda>sep.
                  seq (io_load C EnrollmentMap p (Sep sep)) (\<lambda>enrollments.
                  if keep
                  then self_set (\<lambda>s. map_sum id (\<lambda>d. s\<lparr>u_enrollments := d\<rparr>)
                                        (setitem (u_enrollments s) key (Some enrollments)))
                  else ret ()))))"
  proof (rule st_get)
    fix path :: "pathlike option" and s1 :: "'a dataset"
    show "steady (kept up s0) P
            (case path of
                None \<Rightarrow> throw AssertionError
              | Some p \<Rightarrow>
                  seq (self_get (\<lambda>s. Inr (table_sep s))) (\<lambda>sep.
                  seq (io_load C EnrollmentMap p (Sep sep)) (\<lambda>enrollments.
                  if keep
                  then self_set (\<lambda>s. map_sum id (\<lambda>d. s\<lparr>u_enrollments := d\<rparr>)
                                        (setitem (u_enrollments s) key (Some enrollments)))
                  else ret ())))"
    proof (cases path)
      case None
      then show ?thesis by (simp add: st_throw)
    next
      case (Some p)
      have "steady (kept up s0) P
              (seq (self_get (\<lambda>s. Inr (table_sep s))) (\<lambda>sep.
                  seq (io_load C EnrollmentMap p (Sep sep)) (\<lambda>enrollments.
                  if keep
                  then self_set (\<lambda>s. map_sum id (\<lambda>d. s\<lparr>u_enrollments := d\<rparr>)
                                        (setitem (u_enrollments s) key (Some enrollments)))
                  else ret ())))"
      proof (intro st_get st_seq)
        fix sep :: "string option" and s2 :: "'a dataset"
        assume "kept up s0 s2" "Inr (table_sep s2) = Inr sep"
        then have "sep = table_sep s0"
          by (simp add: kept_def)
        with assms show "steady (kept up s0) P (io_load C EnrollmentMap p (Sep sep))"
          by (simp add: st_load)
      next
        fix enrollments :: 'a
        show "steady (kept up s0) P
                (if keep
                 then self_set (\<lambda>s. map_sum id (\<lambda>d. s\<lparr>u_enrollments := d\<rparr>)
                                        (setitem (u_enrollments s) key (Some enrollments)))
                 else ret ())"
          using s by (auto intro!: st_set st_ret elim: kept_set_enrollments)
      qed
      with Some show ?thesis by simp
    qed
  qed
  then show "steady (kept up s0) P
          (seq (if cur = None
                then
                  seq (self_get (\<lambda>s. getitem (u_enrollments_paths s) key)) (\<lambda>path.
                    case path of
                      None \<Rightarrow> throw AssertionError
                    | Some p \<Rightarrow>
                        seq (self_get (\<lambda>s. Inr (table_sep s))) (\<lambda>sep.
                        seq (io_load C EnrollmentMap p (Sep sep)) (\<lambda>enrollments.
                        if keep
                        then self_set (\<lambda>s. map_sum id (\<lambda>d. s\<lparr>u_enrollments := d\<rparr>)
                                              (setitem (u_enrollments s) key (Some enrollments)))
                        else ret ())))
                else ret ()) (\<lambda>_.
           self_get (\<lambda>s. getitem (u_enrollments s) key)))"
    by (intro st_seq st_self_get) (simp add: st_ret)
qed

lemma kept_set_trials:
  assumes "kept up s0 s'" "getitem (u_trials s') key = Inr a" "kept up s0 s"
      and "map_sum id (\<lambda>d. s\<lparr>u_trials := d\<rparr>) (setitem (u_trials s) key v) = Inr s1"
  shows "kept up s0 s1"
proof -
  from assms(4) obtain d1 where d1: "setitem (u_trials s) key v = Inr d1"
    and s1: "s1 = s\<lparr>u_trials := d1\<rparr>"
    by (cases "setitem (u_trials s) key v") auto
  from assms(1,3) have "map_option (map fst) (u_trials s) = map_option (map fst) (u_trials s')"
    by (simp add: kept_def all_grp)
  from setitem_keys [OF assms(2) this d1] assms(3) show ?thesis
    by (simp add: s1 kept_def all_grp)
qed

lemma kept_set_trials_paths:
  assumes "kept True s0 s"
      and "map_sum id (\<lambda>d. s\<lparr>u_trials_paths := d\<rparr>) (setitem (u_trials_paths s) key v) = Inr s1"
  shows "kept True s0 s1"
proof -
  from assms(2) obtain d1 where s1: "s1 = s\<lparr>u_trials_paths := d1\<rparr>"
    by (cases "setitem (u_trials_paths s) key v") auto
  with assms(1) show ?thesis
    by (simp add: kept_def all_grp)
qed

lemma trials_value_steady:
  assumes "\<And>k p. k \<in> {TrialKey, TrialNdx, SparseTrialKey} \<Longrightarrow> P (Load k p NoSep)"
  shows "steady (kept up s0) P (trials_value C key keep)"
  unfolding trials_value_def
proof (rule st_get)
  fix cur :: "'a option" and s :: "'a dataset"
  assume s: "kept up s0 s" "getitem (u_trials s) key = Inr cur"
  have "steady (kept up s0) P
          (seq (self_get (\<lambda>s. getitem (u_trials_paths s) key)) (\<lambda>path.
              case path of
                None \<Rightarrow> throw AssertionError
              | Some p \<Rightarrow>
                  seq (try_except
                         (seq (self_get (\<lambda>s. Inr (sparse_trials s))) (\<lambda>sparse.
                            if sparse
                            then io_load C SparseTrialKey p NoSep
                            else io_load C TrialKey p NoSep))
                         (io_load C TrialNdx p NoSep)) (\<lambda>trials.
                  if keep
                  then self_set (\<lambda>s. map_sum id (\<lambda>d. s\<lparr>u_trials := d\<rparr>)
                                        (setitem (u_trials s) key (Some trials)))
                  else ret ())))"
  proof (rule st_get)
    fix path :: "pathlike option" and s1 :: "'a dataset"
    show "steady (kept up s0) P
            (case path of
                None \<Rightarrow> throw AssertionError
              | Some p \<Rightarrow>
                  seq (try_except
                         (seq (self_get (\<lambda>s. Inr (sparse_trials s))) (\<lambda>sparse.
                            if sparse
                            then io_load C SparseTrialKey p NoSep
                            else io_load C TrialKey p NoSep))
                         (io_load C TrialNdx p NoSep)) (\<lambda>trials.
                  if keep
                  then self_set (\<lambda>s. map_sum id (\<lambda>d. s\<lparr>u_trials := d\<rparr>)
                                        (setitem (u_trials s) key (Some trials)))
                  else ret ()))"
    proof (cases path)
      case None
      then show ?thesis by (simp add: st_throw)
    next
      case (Some p)
      have "steady (kept up s0) P
              (seq (try_except
                         (seq (self_get (\<lambda>s. Inr (sparse_trials s))) (\<lambda>sparse.
                            if sparse
                            then io_load C SparseTrialKey p NoSep
                            else io_load C TrialKey p NoSep))
                         (io_load C TrialNdx p NoSep)) (\<lambda>trials.
                  if keep
                  then self_set (\<lambda>s. map_sum id (\<lambda>d. s\<lparr>u_trials := d\<rparr>)
                                        (setitem (u_trials s) key (Some trials)))
                  else ret ()))"
      proof (intro st_seq st_try st_self_get)
        fix sparse :: bool
        show "steady (kept up s0) P
                (if sparse then io_load C SparseTrialKey p NoSep else io_load C TrialKey p NoSep)"
          by (simp add: st_load assms)
      next
        show "steady (kept up s0) P (io_load C TrialNdx p NoSep)"
          by (simp add: st_load assms)
      next
        fix trials :: 'a
        show "steady (kept up s0) P
                (if keep
                 then self_set (\<lambda>s. map_sum id (\<lambda>d. s\<lparr>u_trials := d\<rparr>)
                                        (setitem (u_trials s) key (Some trials)))
                 else ret ())"
          using s by (auto intro!: st_set st_ret elim: kept_set_trials)
      qed
      with Some show ?thesis by simp
    qed
  qed
  then show "steady (kept up s0) P
          (seq (if cur = None
                then
                  seq (self_get (\<lambda>s. getitem (u_trials_paths s) key)) (\<lambda>path.
                    case path of
                      None \<Rightarrow> throw AssertionError
                    | Some p \<Rightarrow>
                        seq (try_except
                               (seq (self_get (\<lambda>s. Inr (sparse_trials s))) (\<lambda>sparse.
                                  if sparse
                                  then io_load C SparseTrialKey p NoSep
                                  else io_load C TrialKey p NoSep))
                               (io_load C TrialNdx p NoSep)) (\<lambda>trials.
                        if keep
                        then self_set (\<lambda>s. map_sum id (\<lambda>d. s\<lparr>u_trials := d\<rparr>)
                                              (setitem (u_trials s) key (Some trials)))
                        else ret ()))
                else ret ()) (\<lambda>_.
           self_get (\<lambda>s. getitem (u_trials s) key)))"
    by (intro st_seq st_self_get) (simp add: st_ret)
qed

lemma recordings_steady:
  assumes "\<And>key. steady Q P (recordings_value C key keep)"
      and "\<And>k v a. steady Q P (body k v a)"
  shows "steady Q P (recordings C keep body acc)"
  unfolding recordings_def
proof (rule st_get)
  fix d :: "(string \<times> 'a option) list option"
  show "steady Q P
          (case d of
             None \<Rightarrow> ret acc
           | Some m \<Rightarrow>
               for_each (map fst m)
                 (\<lambda>key a. seq (recordings_value C key keep) (\<lambda>v. body key v a)) acc)"
    by (cases d) (auto intro!: st_ret st_for_each st_seq assms)
qed

lemma save_recordings_steady:
  assumes "\<And>p. P (Load RecordingSet p (Sep (table_sep s0)))"
      and "\<And>t p. P (Save t p (Sep sv))"
  shows "steady (kept up s0) P (save_recordings C dataset_dir table_ext sv up)"
  unfolding save_recordings_def Let_def
proof (rule recordings_steady)
  fix key
  show "steady (kept up s0) P (recordings_value C key True)"
    by (rule recordings_value_steady) (rule assms(1))
next
  fix k :: string and v :: "'a option" and a :: "(string \<times> pyval) list"
  have "steady (kept up s0) P
          (if up
           then self_set (\<lambda>s. map_sum id (\<lambda>d. s\<lparr>u_recordings_paths := d\<rparr>)
                  (setitem (u_recordings_paths s) k (Some (PPath (path_div dataset_dir (Path (k @ table_ext)))))))
           else ret ())"
    by (cases up) (auto intro!: st_set st_ret elim: kept_set_recordings_paths)
  then show "steady (kept up s0) P
          (seq (io_save C v (path_div dataset_dir (Path (k @ table_ext))) (Sep sv)) (\<lambda>_.
             seq (if up
                  then self_set (\<lambda>s. map_sum id (\<lambda>d. s\<lparr>u_recordings_paths := d\<rparr>)
                         (setitem (u_recordings_paths s) k (Some (PPath (path_div dataset_dir (Path (k @ table_ext)))))))
                  else ret ()) (\<lambda>_.
             ret (AList.update k (PyStr (k @ table_ext)) a))))"
    by (intro st_seq st_save st_ret) (simp_all add: assms(2))
qed

lemma features_steady:
  assumes "\<And>key. steady Q P (features_value C key keep)"
      and "\<And>k v a. steady Q P (body k v a)"
  shows "steady Q P (features C keep body acc)"
  unfolding features_def
proof (rule st_get)
  fix d :: "(string \<times> 'a option) list option"
  show "steady Q P
          (case d of
             None \<Rightarrow> ret acc
           | Some m \<Rightarrow>
               for_each (map fst m)
                 (\<lambda>key a. seq (features_value C key keep) (\<lambda>v. body key v a)) acc)"
    by (cases d) (auto intro!: st_ret st_for_each st_seq assms)
qed

lemma save_features_steady:
  assumes "\<And>p. P (Load FeatureSet p (Sep (table_sep s0)))"
      and "\<And>t p. P (Save t p (Sep sv))"
  shows "steady (kept up s0) P (save_features C dataset_dir table_ext sv up)"
  unfolding save_features_def Let_def
proof (rule features_steady)
  fix key
  show "steady (kept up s0) P (features_value C key True)"
    by (rule features_value_steady) (rule assms(1))
next
  fix k :: string and v :: "'a option" and a :: "(string \<times> pyval) list"
  have "steady (kept up s0) P
          (if up
           then self_set (\<lambda>s. map_sum id (\<lambda>d. s\<lparr>u_features_paths := d\<rparr>)
                  (setitem (u_features_paths s) k (Some (PPath (path_div dataset_dir (Path (k @ table_ext)))))))
           else ret ())"
    by (cases up) (auto intro!: st_set st_ret elim: kept_set_features_paths)
  then show "steady (kept up s0) P
          (seq (io_save C v (path_div dataset_dir (Path (k @ table_ext))) (Sep sv)) (\<lambda>_.
             seq (if up
                  then self_set (\<lambda>s. map_sum id (\<lambda>d. s\<lparr>u_features_paths := d\<rparr>)
                         (setitem (u_features_paths s) k (Some (PPath (path_div dataset_dir (Path (k @ table_ext)))))))
                  else ret ()) (\<lambda>_.
             ret (AList.update k (PyStr (k @ table_ext)) a))))"
    by (intro st_seq st_save st_ret) (simp_all add: assms(2))
qed

lemma classes_steady:
  assumes "\<And>key. steady Q P (classes_value C key keep)"
      and "\<And>k v a. steady Q P (body k v a)"
  shows "steady Q P (classes C keep body acc)"
  unfolding classes_def
proof (rule st_get)
  fix d :: "(string \<times> 'a option) list option"
  show "steady Q P
          (case d of
             None \<Rightarrow> ret acc
           | Some m \<Rightarrow>
               for_each (map fst m)
                 (\<lambda>key a. seq (classes_value C key keep) (\<lambda>v. body key v a)) acc)"
    by (cases d) (auto intro!: st_ret st_for_each st_seq assms)
qed

lemma save_classes_steady:
  assumes "\<And>p. P (Load ClassInfo p (Sep (table_sep s0)))"
      and "\<And>t p. P (Save t p (Sep sv))"
  shows "steady (kept up s0) P (save_classes C dataset_dir table_ext sv up)"
  unfolding save_classes_def Let_def
proof (rule classes_steady)
  fix key
  show "steady (kept up s0) P (classes_value C key True)"
    by (rule classes_value_steady) (rule assms(1))
next
  fix k :: string and v :: "'a option" and a :: "(string \<times> pyval) list"
  have "steady (kept up s0) P
          (if up
           then self_set (\<lambda>s. map_sum id (\<lambda>d. s\<lparr>u_classes_paths := d\<rparr>)
                  (setitem (u_classes_paths s) k (Some (PPath (path_div dataset_dir (Path (k @ table_ext)))))))
           else ret ())"
    by (cases up) (auto intro!: st_set st_ret elim: kept_set_classes_paths)
  then show "steady (kept up s0) P
          (seq (io_save C v (path_div dataset_dir (Path (k @ table_ext))) (Sep sv)) (\<lambda>_.
             seq (if up
                  then self_set (\<lambda>s. map_sum id (\<lambda>d. s\<lparr>u_classes_paths := d\<rparr>)
                         (setitem (u_classes_paths s) k (Some (PPath (path_div dataset_dir (Path (k @ table_ext)))))))
                  else ret ()) (\<lambda>_.
             ret (AList.update k (PyStr (k @ table_ext)) a))))"
    by (intro st_seq st_save st_ret) (simp_all add: assms(2))
qed

lemma enrollments_steady:
  assumes "\<And>key. steady Q P (enrollments_value C key keep)"
      and "\<And>k v a. steady Q P (body k v a)"
  shows "steady Q P (enrollments C keep body acc)"
  unfolding enrollments_def
proof (rule st_get)
  fix d :: "(string \<times> 'a option) list option"
  show "steady Q P
          (case d of
             None \<Rightarrow> ret acc
           | Some m \<Rightarrow>
               for_each (map fst m)
                 (\<lambda>key a. seq (enrollments_value C key keep) (\<lambda>v. body key v a)) acc)"
    by (cases d) (auto intro!: st_ret st_for_each st_seq assms)
qed

lemma save_enrollments_steady:
  assumes "\<And>p. P (Load EnrollmentMap p (Sep (table_sep s0)))"
      and "\<And>t p. P (Save t p (Sep sv))"
  shows "steady (kept up s0) P (save_enrollments C dataset_dir table_ext sv up)"
  unfolding save_enrollments_def Let_def
proof (rule enrollments_steady)
  fix key
  show "steady (kept up s0) P (enrollments_value C key True)"
    by (rule enrollments_value_steady) (rule assms(1))
next
  fix k :: string and v :: "'a option" and a :: "(string \<times> pyval) list"
  have "steady (kept up s0) P
          (if up
           then self_set (\<lambda>s. map_sum id (\<lambda>d. s\<lparr>u_enrollments_paths := d\<rparr>)
                  (setitem (u_enrollments_paths s) k (Some (PPath (path_div dataset_dir (Path (k @ table_ext)))))))
           else ret ())"
    by (cases up) (auto intro!: st_set st_ret elim: kept_set_enrollments_paths)
  then show "steady (kept up s0) P
          (seq (io_save C v (path_div dataset_dir (Path (k @ table_ext))) (Sep sv)) (\<lambda>_.
             seq (if up
                  then self_set (\<lambda>s. map_sum id (\<lambda>d. s\<lparr>u_enrollments_paths := d\<rparr>)
                         (setitem (u_enrollments_paths s) k (Some (PPath (path_div dataset_dir (Path (k @ table_ext)))))))
                  else ret ()) (\<lambda>_.
             ret (AList.update k (PyStr (k @ table_ext)) a))))"
    by (intro st_seq st_save st_ret) (simp_all add: assms(2))
qed

lemma trials_steady:
  assumes "\<And>key. steady Q P (trials_value C key keep)"
      and "\<And>k v a. steady Q P (body k v a)"
  shows "steady Q P (trials C keep body acc)"
  unfolding trials_def
proof (rule st_get)
  fix d :: "(string \<times> 'a option) list option"
  show "steady Q P
          (case d of
             None \<Rightarrow> ret acc
           | Some m \<Rightarrow>
               for_each (map fst m)
                 (\<lambda>key a. seq (trials_value C key keep) (\<lambda>v. body key v a)) acc)"
    by (cases d) (auto intro!: st_ret st_for_each st_seq assms)
qed

lemma save_trials_steady:
  assumes "\<And>k p. k \<in> {TrialKey, TrialNdx, SparseTrialKey} \<Longrightarrow> P (Load k p NoSep)"
      and "\<And>t p. P (Save t p NoSep)"
  shows "steady (kept up s0) P (save_trials C dataset_dir table_ext up)"
  unfolding save_trials_def Let_def
proof (rule trials_steady)
  fix key
  show "steady (kept up s0) P (trials_value C key True)"
    by (rule trials_value_steady) (rule assms(1))
next
  fix k :: string and v :: "'a option" and a :: "(string \<times> pyval) list"
  have "steady (kept up s0) P
          (if up
           then self_set (\<lambda>s. map_sum id (\<lambda>d. s\<lparr>u_trials_paths := d\<rparr>)
                  (setitem (u_trials_paths s) k (Some (PPath (path_div dataset_dir (Path (k @ table_ext)))))))
           else ret ())"
    by (cases up) (auto intro!: st_set st_ret elim: kept_set_trials_paths)
  then show "steady (kept up s0) P
          (seq (io_save C v (path_div dataset_dir (Path (k @ table_ext))) NoSep) (\<lambda>_.
             seq (if up
                  then self_set (\<lambda>s. map_sum id (\<lambda>d. s\<lparr>u_trials_paths := d\<rparr>)
                         (setitem (u_trials_paths s) k (Some (PPath (path_div dataset_dir (Path (k @ table_ext)))))))
                  else ret ()) (\<lambda>_.
             ret (AList.update k (PyStr (k @ table_ext)) a))))"
    by (intro st_seq st_save st_ret) (simp_all add: assms(2))
qed

lemma save_tables_steady:
  "steady2 (kept up s0) (sep_event (table_sep s0) sv) nosep_event
     (save_tables C dataset_path up sv)"
proof -
  obtain dataset_dir dataset_file
    where rd: "resolve_dataset_path dataset_path = (dataset_dir, dataset_file)"
    by (cases "resolve_dataset_path dataset_path")
  have ld: "\<And>k p. k \<in> {SegmentSet, RecordingSet, FeatureSet, ClassInfo, EnrollmentMap}
              \<Longrightarrow> sep_event (table_sep s0) sv (Load k p (Sep (table_sep s0)))"
    and sa: "\<And>t p. sep_event (table_sep s0) sv (Save t p (Sep sv))"
    by (simp_all add: sep_event_def)
  have upd: "steady (kept up s0) (sep_event (table_sep s0) sv)
        (if up then self_set (\<lambda>s. Inr (s\<lparr>u_segments_path := Some x\<rparr>)) else ret ())" for x
    by (cases up) (auto intro!: st_set st_ret kept_u_segments_path)
  have tail: "steady (kept up s0) nosep_event
        (seq (save_trials C dataset_dir table_ext up) (\<lambda>file_names.
           seq (io_open C dataset_file ModeW) (\<lambda>f. yaml_dump C (PyDict (g file_names)) f)))"
    for table_ext g
    by (intro st_seq save_trials_steady st_open st_dump) (simp_all add: nosep_event_def)
  show ?thesis
    unfolding save_tables_def Let_def rd prod.case
    apply (rule st2_first, rule segments_steady, simp add: ld)
    apply (rule st2_first, rule st_save, rule sa)
    apply (rule st2_first, rule upd)
    apply (rule st2_first, rule save_recordings_steady, simp add: ld, rule sa)
    apply (rule st2_first, rule save_features_steady, simp add: ld, rule sa)
    apply (rule st2_first, rule save_classes_steady, simp add: ld, rule sa)
    apply (rule st2_first, rule save_enrollments_steady, simp add: ld, rule sa)
    apply (rule st2_second)
    apply (rule tail)
    done
qed

lemma save_run:
  "save C dataset_path up table_sep0 w =
     save_tables C dataset_path up (if table_sep0 = None then table_sep (self w) else table_sep0)
       (if up
        then w\<lparr>self := (self w)\<lparr>table_sep :=
                 (if table_sep0 = None then table_sep (self w) else table_sep0)\<rparr>\<rparr>
        else w)"
  by (cases up) (simp_all add: save_def)

lemma save_steady:
  fixes w :: "('t, 'd) world"
  assumes sv: "sv = (if table_sep0 = None then table_sep (self w) else table_sep0)"
      and s0: "s0 = (if up then (self w)\<lparr>table_sep := sv\<rparr> else self w)"
      and w1: "w1 = snd (save C dataset_path up table_sep0 w)"
  shows "kept up s0 (self w1)
         \<and> (\<exists>evs1 evs2. trace w1 = trace w @ evs1 @ evs2
               \<and> list_all (sep_event (table_sep s0) sv) evs1 \<and> list_all nosep_event evs2)"
proof -
  define w0 where "w0 = (if up then w\<lparr>self := (self w)\<lparr>table_sep := sv\<rparr>\<rparr> else w)"
  have self0: "self w0 = s0" and tr: "trace w0 = trace w"
    by (simp_all add: w0_def s0)
  have run: "save C dataset_path up table_sep0 w = save_tables C dataset_path up sv w0"
    unfolding w0_def sv by (rule save_run)
  have "kept up s0 (self w0)"
    unfolding self0 by (rule kept_refl)
  with save_tables_steady [of up s0 sv C dataset_path] show ?thesis
    unfolding steady2_def w1 run tr [symmetric] by blast
qed

section \<open>Saving without updating the paths\<close>

text \<open>
  C9. Whatever the outcome of \<^verbatim>\<open>save\<close> with \<^verbatim>\<open>update_paths=False\<close>, the object has the
  path of the segments and the paths of every group that it had before the call. In
  the example the call returns and has written the tables and the manifest.
\<close>

theorem save_keeps_paths:
  "u_segments_path (self (snd (save C dataset_path False table_sep0 w)))
     = u_segments_path (self w)
   \<and> (\<forall>g. slot_paths g (self (snd (save C dataset_path False table_sep0 w)))
          = slot_paths g (self w))"
  using save_steady [where up = False and w = w and ?table_sep0.0 = table_sep0 and C = C
      and dataset_path = dataset_path, OF refl refl refl]
  by (simp add: kept_def)

theorem save_keeps_paths_witness:
  "fst (save mem_collab (PStr ''out'') False None ex_world) = Inr ()
   \<and> map_of (disk (snd (save mem_collab (PStr ''out'') False None ex_world)))
        (Path ''out/rec.csv'') = Some (TableFile (Tbl RecordingSet 2))
   \<and> map_of (disk (snd (save mem_collab (PStr ''out'') False None ex_world)))
        (Path ''out/dataset.yaml'') = Some (YamlFile ex_manifest)
   \<and> u_segments_path (self (snd (save mem_collab (PStr ''out'') False None ex_world))) = None
   \<and> slot_paths Recordings (self (snd (save mem_collab (PStr ''out'') False None ex_world)))
        = Some [(''rec'', Some (PStr ''data/rec.csv''))]
   \<and> slot_paths Trials (self (snd (save mem_collab (PStr ''out'') False None ex_world)))
        = Some [(''tr'', Some (PStr ''data/tr.csv''))]"
proof -
  have ok: "fst (save mem_collab (PStr ''out'') False None ex_world) = Inr ()"
    by code_simp
  have f1: "map_of (disk (snd (save mem_collab (PStr ''out'') False None ex_world)))
        (Path ''out/rec.csv'') = Some (TableFile (Tbl RecordingSet 2))"
    by code_simp
  have f2: "map_of (disk (snd (save mem_collab (PStr ''out'') False None ex_world)))
        (Path ''out/dataset.yaml'') = Some (YamlFile ex_manifest)"
    by code_simp
  have p0: "u_segments_path (self ex_world) = None"
    by code_simp
  have p1: "slot_paths Recordings (self ex_world) = Some [(''rec'', Some (PStr ''data/rec.csv''))]"
    by code_simp
  have p2: "slot_paths Trials (self ex_world) = Some [(''tr'', Some (PStr ''data/tr.csv''))]"
    by code_simp
  from save_keeps_paths [of mem_collab "PStr ''out''" None ex_world] ok f1 f2 p0 p1 p2
  show ?thesis
    by metis
qed

section \<open>The separator of save\<close>

text \<open>
  C10. Let \<open>sv\<close> be the separator of the call: the argument \<^verbatim>\<open>table_sep\<close>, or the
  attribute when the argument is \<^verbatim>\<open>None\<close>. After \<^verbatim>\<open>save\<close>, whatever its outcome, the
  attribute \<^verbatim>\<open>table_sep\<close> is \<open>sv\<close> when \<^verbatim>\<open>update_paths\<close> is set and is unchanged when it
  is not. The calls that \<^verbatim>\<open>save\<close> makes are first loads and saves of tables other than
  trials, every load with the attribute as it is after the call (the attribute is
  set before the first of them) and every save with \<open>sv\<close>; then calls without any
  separator: the loads and saves of the trials, and the writing of the manifest.
\<close>

theorem save_table_sep:
  "let sv = (if table_sep0 = None then table_sep (self w) else table_sep0);
       ld = (if update_paths then sv else table_sep (self w));
       w1 = snd (save C dataset_path update_paths table_sep0 w)
   in table_sep (self w1) = ld
      \<and> (\<exists>evs1 evs2. trace w1 = trace w @ evs1 @ evs2
            \<and> list_all (sep_event ld sv) evs1 \<and> list_all nosep_event evs2)"
proof (cases update_paths)
  case True
  with save_steady [where up = True and w = w and ?table_sep0.0 = table_sep0 and C = C
      and dataset_path = dataset_path, OF refl refl refl] show ?thesis
    by (simp add: kept_def Let_def)
next
  case False
  with save_steady [where up = False and w = w and ?table_sep0.0 = table_sep0 and C = C
      and dataset_path = dataset_path, OF refl refl refl] show ?thesis
    by (simp add: kept_def Let_def)
qed

theorem save_table_sep_witness:
  "table_sep (self ex_world) = None
   \<and> table_sep (self (snd (save mem_collab (PStr ''out'') True (Some [CHR 0x09]) ex_world)))
       = Some [CHR 0x09]
   \<and> take 3 (trace (snd (save mem_collab (PStr ''out'') True (Some [CHR 0x09]) ex_world)))
       = [Save (Tbl SegmentSet 1) (Path ''out/segments.tsv'') (Sep (Some [CHR 0x09])),
          Load RecordingSet (PStr ''data/rec.csv'') (Sep (Some [CHR 0x09])),
          Save (Tbl RecordingSet 2) (Path ''out/rec.tsv'') (Sep (Some [CHR 0x09]))]
   \<and> table_sep (self (snd (save mem_collab (PStr ''out'') False (Some [CHR 0x09]) ex_world)))
       = None
   \<and> take 3 (trace (snd (save mem_collab (PStr ''out'') False (Some [CHR 0x09]) ex_world)))
       = [Save (Tbl SegmentSet 1) (Path ''out/segments.tsv'') (Sep (Some [CHR 0x09])),
          Load RecordingSet (PStr ''data/rec.csv'') (Sep None),
          Save (Tbl RecordingSet 2) (Path ''out/rec.tsv'') (Sep (Some [CHR 0x09]))]"
proof -
  have s0: "table_sep (self ex_world) = None"
    by code_simp
  have t1: "take 3 (trace (snd (save mem_collab (PStr ''out'') True (Some [CHR 0x09]) ex_world)))
       = [Save (Tbl SegmentSet 1) (Path ''out/segments.tsv'') (Sep (Some [CHR 0x09])),
          Load RecordingSet (PStr ''data/rec.csv'') (Sep (Some [CHR 0x09])),
          Save (Tbl RecordingSet 2) (Path ''out/rec.tsv'') (Sep (Some [CHR 0x09]))]"
    by code_simp
  have t2: "take 3 (trace (snd (save mem_collab (PStr ''out'') False (Some [CHR 0x09]) ex_world)))
       = [Save (Tbl SegmentSet 1) (Path ''out/segments.tsv'') (Sep (Some [CHR 0x09])),
          Load RecordingSet (PStr ''data/rec.csv'') (Sep None),
          Save (Tbl RecordingSet 2) (Path ''out/rec.tsv'') (Sep (Some [CHR 0x09]))]"
    by code_simp
  from save_table_sep [of "Some [CHR 0x09]" ex_world True mem_collab "PStr ''out''"]
  have a: "table_sep (self (snd (save mem_collab (PStr ''out'') True (Some [CHR 0x09]) ex_world)))
       = Some [CHR 0x09]"
    by (simp add: Let_def)
  from save_table_sep [of "Some [CHR 0x09]" ex_world False mem_collab "PStr ''out''"] s0
  have b: "table_sep (self (snd (save mem_collab (PStr ''out'') False (Some [CHR 0x09]) ex_world)))
       = None"
    by (simp add: Let_def)
  from s0 a t1 b t2 show ?thesis
    by blast
qed

text \<open>
  The trials do not follow the separator: in the example the trials table is still
  on disk when \<^verbatim>\<open>save\<close> is called with \<^verbatim>\<open>update_paths=True\<close> and a tab; the attribute
  becomes the tab, and the table is then loaded and saved without a separator.
\<close>

theorem save_trials_without_table_sep:
  "getitem (u_trials (self ex_world)) ''tr'' = Inr None
   \<and> fst (save mem_collab (PStr ''out'') True (Some [CHR 0x09]) ex_world) = Inr ()
   \<and> table_sep (self (snd (save mem_collab (PStr ''out'') True (Some [CHR 0x09]) ex_world)))
       = Some [CHR 0x09]
   \<and> drop 9 (trace (snd (save mem_collab (PStr ''out'') True (Some [CHR 0x09]) ex_world)))
       = [Load TrialKey (PStr ''data/tr.csv'') NoSep,
          Load TrialNdx (PStr ''data/tr.csv'') NoSep,
          Save (Tbl TrialNdx 6) (Path ''out/tr.tsv'') NoSep,
          Open (Path ''out/dataset.yaml'') ModeW,
          Dump (Path ''out/dataset.yaml'')
            (PyDict [(''segments'', PyStr ''segments.tsv''),
                     (''recordings'', PyDict [(''rec'', PyStr ''rec.tsv'')]),
                     (''features'', PyDict [(''mfcc'', PyStr ''mfcc.tsv'')]),
                     (''classes'', PyDict [(''spk'', PyStr ''spk.tsv'')]),
                     (''enrollments'', PyDict [(''enr'', PyStr ''enr.tsv'')]),
                     (''trials'', PyDict [(''tr'', PyStr ''tr.tsv'')])])]"
  by code_simp

section \<open>The groups of the manifest\<close>

lemma seq_InrE:
  assumes "seq m f w = (Inr b, w2)"
  obtains a w1 where "m w = (Inr a, w1)" and "f a w1 = (Inr b, w2)"
proof -
  obtain r w1 where mw: "m w = (r, w1)"
    by (cases "m w")
  show thesis
  proof (cases r)
    case (Inl e)
    with mw assms show thesis by simp
  next
    case (Inr a)
    with mw assms that [of a w1] show thesis by simp
  qed
qed

lemma steady_keptD:
  fixes m :: "(('t, 'd) world, 'a) sx"
  assumes "steady (kept up s0) P m" and "kept up s0 (self w)" and "m w = (r, w1)"
  shows "kept up s0 (self w1)"
  using steadyD [OF assms(1,2)] assms(3) by simp

lemma for_each_nonempty:
  assumes "\<And>k a w r w1. body k a w = (Inr r, w1) \<Longrightarrow> r \<noteq> []"
      and "for_each ks body acc w = (Inr r, w1)"
  shows "(r \<noteq> []) = (ks \<noteq> [] \<or> acc \<noteq> [])"
  using assms(2)
proof (induction ks arbitrary: acc w)
  case Nil
  then show ?case by simp
next
  case (Cons k ks)
  from Cons.prems obtain a w' where b: "body k acc w = (Inr a, w')"
    and r: "for_each ks body a w' = (Inr r, w1)"
    by (auto elim: seq_InrE)
  from assms(1) [OF b] Cons.IH [OF r] show ?case by simp
qed

lemma update_not_Nil: "AList.update k v al \<noteq> []"
  by (cases al) simp_all

lemma keys_nonempty:
  assumes "map_option (map fst) d = map_option (map fst) d0"
  shows "(\<exists>m. d = Some m \<and> m \<noteq> []) = (\<exists>m. d0 = Some m \<and> m \<noteq> [])"
  using assms by (cases d; cases d0) auto

lemma save_recordings_names:
  assumes "save_recordings C dataset_dir table_ext sv up w = (Inr fn, w1)"
  shows "(fn \<noteq> []) = (\<exists>m. u_recordings (self w) = Some m \<and> m \<noteq> [])"
proof (cases "u_recordings (self w)")
  case None
  with assms show ?thesis
    by (simp add: save_recordings_def recordings_def)
next
  case (Some m)
  with assms have "for_each (map fst m)
      (\<lambda>key a. seq (recordings_value C key True) (\<lambda>v.
         seq (io_save C v (path_div dataset_dir (Path (key @ table_ext))) (Sep sv)) (\<lambda>_.
         seq (if up
              then self_set (\<lambda>s. map_sum id (\<lambda>d. s\<lparr>u_recordings_paths := d\<rparr>)
                     (setitem (u_recordings_paths s) key
                        (Some (PPath (path_div dataset_dir (Path (key @ table_ext)))))))
              else ret ()) (\<lambda>_.
         ret (AList.update key (PyStr (key @ table_ext)) a))))) [] w = (Inr fn, w1)"
    by (simp add: save_recordings_def recordings_def Let_def)
  then have "(fn \<noteq> []) = (map fst m \<noteq> [] \<or> ([] :: (string \<times> pyval) list) \<noteq> [])"
    by (rule for_each_nonempty [rotated]) (auto elim!: seq_InrE simp: update_not_Nil)
  with Some show ?thesis by simp
qed

lemma save_features_names:
  assumes "save_features C dataset_dir table_ext sv up w = (Inr fn, w1)"
  shows "(fn \<noteq> []) = (\<exists>m. u_features (self w) = Some m \<and> m \<noteq> [])"
proof (cases "u_features (self w)")
  case None
  with assms show ?thesis
    by (simp add: save_features_def features_def)
next
  case (Some m)
  with assms have "for_each (map fst m)
      (\<lambda>key a. seq (features_value C key True) (\<lambda>v.
         seq (io_save C v (path_div dataset_dir (Path (key @ table_ext))) (Sep sv)) (\<lambda>_.
         seq (if up
              then self_set (\<lambda>s. map_sum id (\<lambda>d. s\<lparr>u_features_paths := d\<rparr>)
                     (setitem (u_features_paths s) key
                        (Some (PPath (path_div dataset_dir (Path (key @ table_ext)))))))
              else ret ()) (\<lambda>_.
         ret (AList.update key (PyStr (key @ table_ext)) a))))) [] w = (Inr fn, w1)"
    by (simp add: save_features_def features_def Let_def)
  then have "(fn \<noteq> []) = (map fst m \<noteq> [] \<or> ([] :: (string \<times> pyval) list) \<noteq> [])"
    by (rule for_each_nonempty [rotated]) (auto elim!: seq_InrE simp: update_not_Nil)
  with Some show ?thesis by simp
qed

lemma save_classes_names:
  assumes "save_classes C dataset_dir table_ext sv up w = (Inr fn, w1)"
  shows "(fn \<noteq> []) = (\<exists>m. u_classes (self w) = Some m \<and> m \<noteq> [])"
proof (cases "u_classes (self w)")
  case None
  with assms show ?thesis
    by (simp add: save_classes_def classes_def)
next
  case (Some m)
  with assms have "for_each (map fst m)
      (\<lambda>key a. seq (classes_value C key True) (\<lambda>v.
         seq (io_save C v (path_div dataset_dir (Path (key @ table_ext))) (Sep sv)) (\<lambda>_.
         seq (if up
              then self_set (\<lambda>s. map_sum id (\<lambda>d. s\<lparr>u_classes_paths := d\<rparr>)
                     (setitem (u_classes_paths s) key
                        (Some (PPath (path_div dataset_dir (Path (key @ table_ext)))))))
              else ret ()) (\<lambda>_.
         ret (AList.update key (PyStr (key @ table_ext)) a))))) [] w = (Inr fn, w1)"
    by (simp add: save_classes_def classes_def Let_def)
  then have "(fn \<noteq> []) = (map fst m \<noteq> [] \<or> ([] :: (string \<times> pyval) list) \<noteq> [])"
    by (rule for_each_nonempty [rotated]) (auto elim!: seq_InrE simp: update_not_Nil)
  with Some show ?thesis by simp
qed

lemma save_enrollments_names:
  assumes "save_enrollments C dataset_dir table_ext sv up w = (Inr fn, w1)"
  shows "(fn \<noteq> []) = (\<exists>m. u_enrollments (self w) = Some m \<and> m \<noteq> [])"
proof (cases "u_enrollments (self w)")
  case None
  with assms show ?thesis
    by (simp add: save_enrollments_def enrollments_def)
next
  case (Some m)
  with assms have "for_each (map fst m)
      (\<lambda>key a. seq (enrollments_value C key True) (\<lambda>v.
         seq (io_save C v (path_div dataset_dir (Path (key @ table_ext))) (Sep sv)) (\<lambda>_.
         seq (if up
              then self_set (\<lambda>s. map_sum id (\<lambda>d. s\<lparr>u_enrollments_paths := d\<rparr>)
                     (setitem (u_enrollments_paths s) key
                        (Some (PPath (path_div dataset_dir (Path (key @ table_ext)))))))
              else ret ()) (\<lambda>_.
         ret (AList.update key (PyStr (key @ table_ext)) a))))) [] w = (Inr fn, w1)"
    by (simp add: save_enrollments_def enrollments_def Let_def)
  then have "(fn \<noteq> []) = (map fst m \<noteq> [] \<or> ([] :: (string \<times> pyval) list) \<noteq> [])"
    by (rule for_each_nonempty [rotated]) (auto elim!: seq_InrE simp: update_not_Nil)
  with Some show ?thesis by simp
qed

lemma save_trials_names:
  assumes "save_trials C dataset_dir table_ext up w = (Inr fn, w1)"
  shows "(fn \<noteq> []) = (\<exists>m. u_trials (self w) = Some m \<and> m \<noteq> [])"
proof (cases "u_trials (self w)")
  case None
  with assms show ?thesis
    by (simp add: save_trials_def trials_def)
next
  case (Some m)
  with assms have "for_each (map fst m)
      (\<lambda>key a. seq (trials_value C key True) (\<lambda>v.
         seq (io_save C v (path_div dataset_dir (Path (key @ table_ext))) NoSep) (\<lambda>_.
         seq (if up
              then self_set (\<lambda>s. map_sum id (\<lambda>d. s\<lparr>u_trials_paths := d\<rparr>)
                     (setitem (u_trials_paths s) key
                        (Some (PPath (path_div dataset_dir (Path (key @ table_ext)))))))
              else ret ()) (\<lambda>_.
         ret (AList.update key (PyStr (key @ table_ext)) a))))) [] w = (Inr fn, w1)"
    by (simp add: save_trials_def trials_def Let_def)
  then have "(fn \<noteq> []) = (map fst m \<noteq> [] \<or> ([] :: (string \<times> pyval) list) \<noteq> [])"
    by (rule for_each_nonempty [rotated]) (auto elim!: seq_InrE simp: update_not_Nil)
  with Some show ?thesis by simp
qed

lemma add_group_keys:
  "fst ` set (add_group n fn d) = (if fn \<noteq> [] then insert n (fst ` set d) else fst ` set d)"
proof -
  have "fst ` set (AList.update n v d) = insert n (fst ` set d)" for v
    using dom_update [of n v d] by (simp add: dom_map_of_conv_image_fst)
  then show ?thesis
    by (simp add: add_group_def)
qed

lemma yaml_dump_InrD:
  fixes w :: "('t, 'd) world"
  assumes "yaml_dump C doc f w = (Inr u, w1)"
  shows "\<exists>p. trace w1 = trace w @ [Dump p doc]"
proof -
  obtain p m where f: "f = Handle p m"
    by (cases f)
  show ?thesis
  proof (cases m)
    case ModeR
    with f assms show ?thesis by (simp add: yaml_dump_def)
  next
    case ModeW
    with f assms show ?thesis
      by (auto simp: yaml_dump_def split: prod.splits)
  qed
qed

lemma manifest_steps:
  fixes w0 :: "('t, 'd) world"
  assumes a: "segments C True w0 = (Inr seg, wa)"
      and b: "io_save C (Some seg) fp (Sep sv) wa = (Inr u1, wb)"
      and c: "(if up then self_set (\<lambda>s. Inr (s\<lparr>u_segments_path := Some fp\<rparr>)) else ret ()) wb
                = (Inr u2, wc)"
      and d: "save_recordings C dataset_dir table_ext sv up wc = (Inr fn1, wd)"
      and e: "save_features C dataset_dir table_ext sv up wd = (Inr fn2, we)"
      and f: "save_classes C dataset_dir table_ext sv up we = (Inr fn3, wx)"
      and g: "save_enrollments C dataset_dir table_ext sv up wx = (Inr fn4, wg)"
      and h: "save_trials C dataset_dir table_ext up wg = (Inr fn5, wh)"
      and i: "io_open C dataset_file ModeW wh = (Inr fh, wi)"
      and j: "yaml_dump C
                (PyDict (add_group ''trials'' fn5 (add_group ''enrollments'' fn4
                  (add_group ''classes'' fn3 (add_group ''features'' fn2
                    (add_group ''recordings'' fn1 (AList.update ''segments'' (PyStr fname) []))))))) fh wi
                = (Inr u3, w1)"
  shows "\<exists>p doc. trace w1 \<noteq> [] \<and> last (trace w1) = Dump p (PyDict doc)
           \<and> (\<forall>g. (group_name g \<in> fst ` set doc)
                  = (\<exists>m. slots g (self w0) = Some m \<and> m \<noteq> []))"
proof -
  let ?Q = "kept up (self w0)" and ?P = "\<lambda>ev :: 't event. True"
  have k0: "?Q (self w0)"
    by (rule kept_refl)
  have ka: "?Q (self wa)"
    by (rule steady_keptD [OF segments_steady k0 a, of ?P]) simp
  have kb: "?Q (self wb)"
    by (rule steady_keptD [OF st_save ka b, of ?P]) simp
  have "steady ?Q ?P
          (if up then self_set (\<lambda>s. Inr (s\<lparr>u_segments_path := Some fp\<rparr>)) else ret ())"
    by (cases up) (auto intro!: st_set st_ret kept_u_segments_path)
  from steady_keptD [OF this kb c] have kc: "?Q (self wc)" .
  have kd: "?Q (self wd)"
    by (rule steady_keptD [OF save_recordings_steady kc d, of ?P]) simp_all
  have ke: "?Q (self we)"
    by (rule steady_keptD [OF save_features_steady kd e, of ?P]) simp_all
  have kf: "?Q (self wx)"
    by (rule steady_keptD [OF save_classes_steady ke f, of ?P]) simp_all
  have kg: "?Q (self wg)"
    by (rule steady_keptD [OF save_enrollments_steady kf g, of ?P]) simp_all
  have n1: "(fn1 \<noteq> []) = (\<exists>m. u_recordings (self w0) = Some m \<and> m \<noteq> [])"
    using save_recordings_names [OF d] keys_nonempty [of "u_recordings (self wc)" "u_recordings (self w0)"] kc
    by (simp add: kept_def all_grp)
  have n2: "(fn2 \<noteq> []) = (\<exists>m. u_features (self w0) = Some m \<and> m \<noteq> [])"
    using save_features_names [OF e] keys_nonempty [of "u_features (self wd)" "u_features (self w0)"] kd
    by (simp add: kept_def all_grp)
  have n3: "(fn3 \<noteq> []) = (\<exists>m. u_classes (self w0) = Some m \<and> m \<noteq> [])"
    using save_classes_names [OF f] keys_nonempty [of "u_classes (self we)" "u_classes (self w0)"] ke
    by (simp add: kept_def all_grp)
  have n4: "(fn4 \<noteq> []) = (\<exists>m. u_enrollments (self w0) = Some m \<and> m \<noteq> [])"
    using save_enrollments_names [OF g] keys_nonempty [of "u_enrollments (self wx)" "u_enrollments (self w0)"] kf
    by (simp add: kept_def all_grp)
  have n5: "(fn5 \<noteq> []) = (\<exists>m. u_trials (self w0) = Some m \<and> m \<noteq> [])"
    using save_trials_names [OF h] keys_nonempty [of "u_trials (self wg)" "u_trials (self w0)"] kg
    by (simp add: kept_def all_grp)
  define doc where "doc = add_group ''trials'' fn5 (add_group ''enrollments'' fn4
                  (add_group ''classes'' fn3 (add_group ''features'' fn2
                    (add_group ''recordings'' fn1 (AList.update ''segments'' (PyStr fname) [])))))"
  from yaml_dump_InrD [OF j] obtain p where tr: "trace w1 = trace wi @ [Dump p (PyDict doc)]"
    unfolding doc_def by blast
  have keys: "fst ` set doc =
      (if fn5 \<noteq> [] then {''trials''} else {}) \<union> (if fn4 \<noteq> [] then {''enrollments''} else {})
      \<union> (if fn3 \<noteq> [] then {''classes''} else {}) \<union> (if fn2 \<noteq> [] then {''features''} else {})
      \<union> (if fn1 \<noteq> [] then {''recordings''} else {}) \<union> {''segments''}"
    unfolding doc_def add_group_keys by auto
  have "(group_name g \<in> fst ` set doc) = (\<exists>m. slots g (self w0) = Some m \<and> m \<noteq> [])" for g
    unfolding keys using n1 n2 n3 n4 n5 by (cases g) simp_all
  with tr show ?thesis
    by (intro exI [of _ p] exI [of _ doc]) simp
qed

lemma save_tables_manifest:
  fixes w0 :: "('t, 'd) world"
  assumes "save_tables C dataset_path up sv w0 = (Inr u, w1)"
  shows "\<exists>p doc. trace w1 \<noteq> [] \<and> last (trace w1) = Dump p (PyDict doc)
           \<and> (\<forall>g. (group_name g \<in> fst ` set doc)
                  = (\<exists>m. slots g (self w0) = Some m \<and> m \<noteq> []))"
proof -
  obtain dataset_dir dataset_file
    where rd: "resolve_dataset_path dataset_path = (dataset_dir, dataset_file)"
    by (cases "resolve_dataset_path dataset_path")
  from assms show ?thesis
    unfolding save_tables_def Let_def rd prod.case
    by (elim seq_InrE) (rule manifest_steps)
qed

text \<open>
  C6. When \<^verbatim>\<open>save\<close> returns, its last call is the writing of the manifest, and a group
  is a key of the manifest exactly when the object has the group with at least one
  key: a group that was never configured and a group that is configured with no key
  are both left out.
\<close>

theorem save_manifest_groups:
  assumes "fst (save C dataset_path update_paths table_sep0 w) = Inr ()"
  shows "\<exists>p doc. trace (snd (save C dataset_path update_paths table_sep0 w)) \<noteq> []
           \<and> last (trace (snd (save C dataset_path update_paths table_sep0 w)))
               = Dump p (PyDict doc)
           \<and> (\<forall>g. (group_name g \<in> fst ` set doc)
                  = (\<exists>m. slots g (self w) = Some m \<and> m \<noteq> []))"
proof -
  define sv where "sv = (if table_sep0 = None then table_sep (self w) else table_sep0)"
  define w0 where "w0 = (if update_paths then w\<lparr>self := (self w)\<lparr>table_sep := sv\<rparr>\<rparr> else w)"
  have run: "save C dataset_path update_paths table_sep0 w
               = save_tables C dataset_path update_paths sv w0"
    unfolding w0_def sv_def by (rule save_run)
  have sl: "slots g (self w0) = slots g (self w)" for g
    by (cases g) (simp_all add: w0_def)
  from assms have "save_tables C dataset_path update_paths sv w0
      = (Inr (), snd (save C dataset_path update_paths table_sep0 w))"
    unfolding run by (metis prod.collapse)
  from save_tables_manifest [OF this] show ?thesis
    unfolding sl .
qed

theorem save_manifest_groups_witness:
  "fst (save mem_collab (PStr ''out'') True None ex_world) = Inr ()
   \<and> last (trace (snd (save mem_collab (PStr ''out'') True None ex_world)))
       = Dump (Path ''out/dataset.yaml'') ex_manifest
   \<and> (\<exists>p doc. trace (snd (save mem_collab (PStr ''out'') True None ex_world)) \<noteq> []
           \<and> last (trace (snd (save mem_collab (PStr ''out'') True None ex_world)))
               = Dump p (PyDict doc)
           \<and> (\<forall>g. (group_name g \<in> fst ` set doc)
                  = (\<exists>m. slots g (self ex_world) = Some m \<and> m \<noteq> [])))"
proof -
  have ok: "fst (save mem_collab (PStr ''out'') True None ex_world) = Inr ()"
    by code_simp
  have l: "last (trace (snd (save mem_collab (PStr ''out'') True None ex_world)))
       = Dump (Path ''out/dataset.yaml'') ex_manifest"
    by code_simp
  from save_manifest_groups [OF ok] ok l show ?thesis
    by blast
qed

text \<open>
  A group that is configured and empty is left out: \<^verbatim>\<open>Dataset(segs, recordings={})\<close>
  is saved with a manifest that has the segments only.
\<close>

theorem save_omits_empty_group:
  "u_recordings (self ex_empty_world) = Some []
   \<and> fst (save mem_collab (PStr ''out'') True None ex_empty_world) = Inr ()
   \<and> trace (snd (save mem_collab (PStr ''out'') True None ex_empty_world))
       = [Save (Tbl SegmentSet 1) (Path ''out/segments.csv'') (Sep None),
          Open (Path ''out/dataset.yaml'') ModeW,
          Dump (Path ''out/dataset.yaml'') (PyDict [(''segments'', PyStr ''segments.csv'')])]"
  by code_simp

end
